theory Spec2Isabelle
  imports Main "HOL-Library.Word"
begin

section \<open>Bytes, strings and exceptions\<close>

text \<open>
  A Python \<open>bytes\<close> object is a list of 8-bit words. A Python \<open>str\<close> is a list of
  Unicode code points (\<open>len\<close> counts code points); \<open>str_of\<close> turns a literal of
  the source into one.
\<close>

type_synonym byte = "8 word"
type_synonym bytes = "byte list"
type_synonym pystr = "nat list"

definition str_of :: "string \<Rightarrow> pystr" where
  "str_of s = map of_char s"

text \<open>
  The exceptions the two modules can meet. \<open>ConnectionClosed\<close> is the
  \<open>Exception("TCP connection closed!")\<close> of \<open>validate_preamble\<close>;
  \<open>StructError\<close>, \<open>TypeError\<close>, \<open>AttributeError\<close> and the two Unicode errors are
  raised by the Python runtime; \<open>SocketError\<close> is an \<open>OSError\<close> of a socket
  operation and \<open>CollaboratorError\<close> any exception raised by code outside the two
  modules (an endpoint, a message's \<open>serialize\<close>, the handshake), both with the
  text \<open>str(e)\<close> the environment gives them. All of them are subclasses of
  \<open>Exception\<close>, so an \<open>except Exception\<close> clause catches each.
\<close>

datatype exn =
    ConnectionClosed
  | StructError
  | TypeError
  | AttributeError
  | UnicodeEncodeError
  | UnicodeDecodeError
  | SocketError pystr
  | CollaboratorError pystr
  | TopicOrServiceNameDoesNotExistError pystr

text \<open>
  \<open>str(e)\<close>, as \<open>"{}".format(e)\<close> renders it. The texts of the exceptions raised by
  the Python runtime are abbreviated to one fixed text per exception class.
\<close>

fun str_exn :: "exn \<Rightarrow> pystr" where
  "str_exn ConnectionClosed = str_of ''TCP connection closed!''"
| "str_exn StructError = str_of ''struct.error''"
| "str_exn TypeError = str_of ''TypeError''"
| "str_exn AttributeError = str_of ''AttributeError''"
| "str_exn UnicodeEncodeError = str_of ''UnicodeEncodeError''"
| "str_exn UnicodeDecodeError = str_of ''UnicodeDecodeError''"
| "str_exn (SocketError t) = t"
| "str_exn (CollaboratorError t) = t"
| "str_exn (TopicOrServiceNameDoesNotExistError t) = t"

subsection \<open>\<open>struct.pack('<I', n)\<close> and \<open>struct.unpack('<I', raw)\<close>\<close>

text \<open>
  Four bytes, least significant first. Packing raises \<open>struct.error\<close> when the
  number does not fit 32 bits; unpacking raises it when the buffer is not exactly four
  bytes long.
\<close>

definition struct_pack_I :: "nat \<Rightarrow> exn + bytes" where
  "struct_pack_I n =
     (if n < 2 ^ 32
      then Inr [of_nat (n mod 256), of_nat (n div 256 mod 256),
                of_nat (n div 65536 mod 256), of_nat (n div 16777216 mod 256)]
      else Inl StructError)"

definition struct_unpack_I :: "bytes \<Rightarrow> exn + nat" where
  "struct_unpack_I raw =
     (case raw of
        [b0, b1, b2, b3] \<Rightarrow>
          Inr (unat b0 + 256 * unat b1 + 65536 * unat b2 + 16777216 * unat b3)
      | _ \<Rightarrow> Inl StructError)"

subsection \<open>\<open>str.encode('utf-8')\<close> and \<open>bytes.decode('utf-8')\<close>\<close>

text \<open>
  The strict UTF-8 codec of Python 3: a surrogate code point (D800 to DFFF) cannot be
  encoded, and the decoder refuses stray continuation bytes, truncated and overlong
  sequences, encoded surrogates and code points above 10FFFF.
\<close>

definition utf8_encode_cp :: "nat \<Rightarrow> bytes option" where
  "utf8_encode_cp cp =
     (if cp < 0x80 then Some [of_nat cp]
      else if cp < 0x800 then
        Some [of_nat (0xC0 + cp div 64), of_nat (0x80 + cp mod 64)]
      else if cp < 0x10000 then
        (if 0xD800 \<le> cp \<and> cp \<le> 0xDFFF then None
         else Some [of_nat (0xE0 + cp div 4096), of_nat (0x80 + cp div 64 mod 64),
                    of_nat (0x80 + cp mod 64)])
      else if cp < 0x110000 then
        Some [of_nat (0xF0 + cp div 262144), of_nat (0x80 + cp div 4096 mod 64),
              of_nat (0x80 + cp div 64 mod 64), of_nat (0x80 + cp mod 64)]
      else None)"

fun utf8_encode :: "pystr \<Rightarrow> exn + bytes" where
  "utf8_encode [] = Inr []"
| "utf8_encode (cp # s) =
     (case utf8_encode_cp cp of
        None \<Rightarrow> Inl UnicodeEncodeError
      | Some bs \<Rightarrow>
          (case utf8_encode s of
             Inl e \<Rightarrow> Inl e
           | Inr rest \<Rightarrow> Inr (bs @ rest)))"

definition is_continuation :: "byte \<Rightarrow> bool" where
  "is_continuation b = (0x80 \<le> unat b \<and> unat b \<le> 0xBF)"

text \<open>One code point from the front of the buffer, with the bytes left after it.\<close>

fun utf8_decode_cp :: "bytes \<Rightarrow> (nat \<times> bytes) option" where
  "utf8_decode_cp [] = None"
| "utf8_decode_cp (b0 # bs) =
     (let n0 = unat b0 in
      if n0 < 0x80 then Some (n0, bs)
      else if 0xC2 \<le> n0 \<and> n0 \<le> 0xDF then
        (case bs of
           b1 # rest \<Rightarrow>
             if is_continuation b1
             then Some ((n0 - 0xC0) * 64 + (unat b1 - 0x80), rest)
             else None
         | _ \<Rightarrow> None)
      else if 0xE0 \<le> n0 \<and> n0 \<le> 0xEF then
        (case bs of
           b1 # b2 # rest \<Rightarrow>
             (let cp = (n0 - 0xE0) * 4096 + (unat b1 - 0x80) * 64 + (unat b2 - 0x80) in
              if is_continuation b1 \<and> is_continuation b2 \<and> 0x800 \<le> cp
                 \<and> \<not> (0xD800 \<le> cp \<and> cp \<le> 0xDFFF)
              then Some (cp, rest)
              else None)
         | _ \<Rightarrow> None)
      else if 0xF0 \<le> n0 \<and> n0 \<le> 0xF4 then
        (case bs of
           b1 # b2 # b3 # rest \<Rightarrow>
             (let cp = (n0 - 0xF0) * 262144 + (unat b1 - 0x80) * 4096
                       + (unat b2 - 0x80) * 64 + (unat b3 - 0x80) in
              if is_continuation b1 \<and> is_continuation b2 \<and> is_continuation b3
                 \<and> 0x10000 \<le> cp \<and> cp < 0x110000
              then Some (cp, rest)
              else None)
         | _ \<Rightarrow> None)
      else None)"

lemma utf8_decode_cp_shorter:
  "utf8_decode_cp bs = Some (cp, rest) \<Longrightarrow> length rest < length bs"
  by (cases bs) (auto simp: Let_def split: if_splits list.splits)

function utf8_decode :: "bytes \<Rightarrow> exn + pystr" where
  "utf8_decode bs =
     (if bs = [] then Inr []
      else
        (case utf8_decode_cp bs of
           None \<Rightarrow> Inl UnicodeDecodeError
         | Some (cp, rest) \<Rightarrow>
             (case utf8_decode rest of
                Inl e \<Rightarrow> Inl e
              | Inr s \<Rightarrow> Inr (cp # s))))"
  by pat_completeness auto
termination
  by (relation "measure length") (auto dest: utf8_decode_cp_shorter)

declare utf8_decode.simps [simp del]

text \<open>The strings a UTF-8 name can be: Unicode scalar values only.\<close>

definition encodable :: "pystr \<Rightarrow> bool" where
  "encodable s = list_all (\<lambda>cp. cp < 0x110000 \<and> \<not> (0xD800 \<le> cp \<and> cp \<le> 0xDFFF)) s"

section \<open>\<open>client.py\<close>: the inbound connection handler\<close>

subsection \<open>The socket and what the handler talks to\<close>

text \<open>
  The connection socket. \<open>incoming\<close> holds the segments the transport has not yet
  handed over, in order: one \<open>recv\<close> never returns more than the rest of the first
  segment, and no segment (or an empty one) is the end of the stream, where \<open>recv\<close>
  returns \<open>b''\<close>. \<open>send_error\<close> is the environment's answer to \<open>send\<close>: the text of
  the \<open>OSError\<close> it raises, if it does. \<open>closed\<close> is set by \<open>close\<close>; the
  operations of a closed socket raise.
\<close>

record connection =
  incoming :: "bytes list"
  send_error :: "pystr option"
  closed :: bool

text \<open>
  A message object of the bus: what its \<open>serialize(buffer)\<close> writes, or the exception
  it raises. An endpoint (a value of \<open>source_destination_dict\<close>) is its
  \<open>send(data)\<close>: it raises, returns nothing or returns a response message.
\<close>

datatype message = Message bytes | Unserializable exn

type_synonym endpoint = "bytes \<Rightarrow> exn + message option"

text \<open>
  The part of the TCP server the handler uses: the registry, \<open>handle_syscommand\<close>
  (\<open>None\<close> when it returns) and \<open>unity_tcp_sender.handshake\<close>. The registry is an
  association list: \<open>map_of\<close> is the lookup and \<open>map fst\<close> its \<open>keys()\<close>.
\<close>

record tcp_server =
  source_destination_dict :: "(pystr \<times> endpoint) list"
  handle_syscommand :: "bytes \<Rightarrow> exn option"
  handshake :: "pystr \<Rightarrow> bytes \<Rightarrow> exn + message"

text \<open>The lines the handler prints, one constructor per \<open>print\<close> of the source.\<close>

datatype log_line =
    UnableToReadPreamble exn
  | UnableToReadInteger exn
  | UnableToReadString exn
  | InvalidPreamble
  | NoPackets
  | NoData nat
  | ExceptionRaised exn

text \<open>
  What the handler does to the world, in the order it does it: lines printed, buffers
  written to the socket, the socket's \<open>close\<close>, calls of an endpoint's \<open>send\<close>
  (destination and payload), of \<open>handle_syscommand\<close>, of \<open>handshake\<close> (peer address
  and payload) and of \<open>send_unity_error\<close>.
\<close>

datatype event =
    Print log_line
  | ConnSend bytes
  | ConnClose
  | EndpointSend pystr bytes
  | HandleSyscommand bytes
  | Handshake pystr bytes
  | SendUnityError pystr

text \<open>The fields of \<open>ClientThread\<close>, and \<open>trace\<close>, the history of its effects.\<close>

record ClientThread =
  conn :: connection
  client_running :: bool
  tcp_server :: tcp_server
  incoming_ip :: pystr
  incoming_port :: nat
  trace :: "event list"

definition ClientThread_init ::
  "connection \<Rightarrow> tcp_server \<Rightarrow> pystr \<Rightarrow> nat \<Rightarrow> ClientThread" where
  "ClientThread_init cn srv ip port =
     \<lparr>conn = cn, client_running = True, tcp_server = srv, incoming_ip = ip,
      incoming_port = port, trace = []\<rparr>"

definition Preamble :: bytes where
  "Preamble = [0xFE, 0xED, 0xF0, 0x0D]"

definition emit :: "event \<Rightarrow> ClientThread \<Rightarrow> ClientThread" where
  "emit ev c = c\<lparr>trace := trace c @ [ev]\<rparr>"

text \<open>\<open>self.conn.recv(bufsize)\<close>.\<close>

definition conn_recv :: "nat \<Rightarrow> ClientThread \<Rightarrow> (exn + bytes) \<times> ClientThread" where
  "conn_recv bufsize c =
     (if closed (conn c) then (Inl (SocketError (str_of ''Bad file descriptor'')), c)
      else
        (case incoming (conn c) of
           [] \<Rightarrow> (Inr [], c)
         | seg # segs \<Rightarrow>
             if seg = [] then (Inr [], c)
             else if length seg \<le> bufsize
             then (Inr seg, c\<lparr>conn := (conn c)\<lparr>incoming := segs\<rparr>\<rparr>)
             else (Inr (take bufsize seg),
                   c\<lparr>conn := (conn c)\<lparr>incoming := drop bufsize seg # segs\<rparr>\<rparr>)))"

text \<open>\<open>self.conn.send(buffer)\<close>: \<open>None\<close> when it returns.\<close>

definition conn_send :: "bytes \<Rightarrow> ClientThread \<Rightarrow> exn option \<times> ClientThread" where
  "conn_send buffer c =
     (if closed (conn c) then (Some (SocketError (str_of ''Bad file descriptor'')), c)
      else
        (case send_error (conn c) of
           Some t \<Rightarrow> (Some (SocketError t), c)
         | None \<Rightarrow> (None, emit (ConnSend buffer) c)))"

subsection \<open>The methods of \<open>ClientThread\<close>\<close>

definition shutdown_client :: "ClientThread \<Rightarrow> ClientThread" where
  "shutdown_client c =
     (if \<not> client_running c then c
      else emit ConnClose (c\<lparr>client_running := False, conn := (conn c)\<lparr>closed := True\<rparr>\<rparr>))"

text \<open>The \<open>while preamble_read_remaining > 0\<close> loop of \<open>validate_preamble\<close>.\<close>

function validate_preamble_loop ::
  "nat \<Rightarrow> bytes \<Rightarrow> ClientThread \<Rightarrow> (exn + bytes) \<times> ClientThread" where
  "validate_preamble_loop preamble_read_remaining data c =
     (if preamble_read_remaining > 0 then
        (case conn_recv preamble_read_remaining c of
           (Inl e, c') \<Rightarrow> (Inl e, c')
         | (Inr raw_bytes, c') \<Rightarrow>
             if raw_bytes = [] then (Inl ConnectionClosed, c')
             else validate_preamble_loop (preamble_read_remaining - length raw_bytes)
                    (data @ raw_bytes) c')
      else (Inr data, c))"
  by pat_completeness auto
termination
  by (relation "measure (\<lambda>(n, data, c). n)") auto

declare validate_preamble_loop.simps [simp del]

definition validate_preamble :: "ClientThread \<Rightarrow> bool \<times> ClientThread" where
  "validate_preamble c =
     (case validate_preamble_loop (length Preamble) [] c of
        (Inl e, c') \<Rightarrow> (False, emit (Print (UnableToReadPreamble e)) c')
      | (Inr data, c') \<Rightarrow> (if data \<noteq> Preamble then (False, c') else (True, c')))"

definition read_int32 :: "ClientThread \<Rightarrow> nat option \<times> ClientThread" where
  "read_int32 c =
     (case conn_recv 4 c of
        (Inl e, c') \<Rightarrow> (None, emit (Print (UnableToReadInteger e)) c')
      | (Inr raw_bytes, c') \<Rightarrow>
          (case struct_unpack_I raw_bytes of
             Inl e \<Rightarrow> (None, emit (Print (UnableToReadInteger e)) c')
           | Inr num \<Rightarrow> (Some num, c')))"

text \<open>
  When \<open>read_int32\<close> has returned \<open>None\<close>, \<open>self.conn.recv(None)\<close> raises
  \<open>TypeError\<close> inside the \<open>try\<close>.
\<close>

definition read_string :: "ClientThread \<Rightarrow> pystr option \<times> ClientThread" where
  "read_string c =
     (case read_int32 c of
        (None, c1) \<Rightarrow> (None, emit (Print (UnableToReadString TypeError)) c1)
      | (Some str_len, c1) \<Rightarrow>
          (case conn_recv str_len c1 of
             (Inl e, c2) \<Rightarrow> (None, emit (Print (UnableToReadString e)) c2)
           | (Inr str_bytes, c2) \<Rightarrow>
               (case utf8_decode str_bytes of
                  Inl e \<Rightarrow> (None, emit (Print (UnableToReadString e)) c2)
                | Inr decoded_str \<Rightarrow> (Some decoded_str, c2))))"

text \<open>\<open>message.serialize(serial_response)\<close> followed by \<open>getvalue()\<close>.\<close>

fun serialize :: "message \<Rightarrow> exn + bytes" where
  "serialize (Message bs) = Inr bs"
| "serialize (Unserializable e) = Inl e"

definition serialize_message :: "pystr \<Rightarrow> message \<Rightarrow> exn + bytes" where
  "serialize_message destination message =
     (case utf8_encode destination of
        Inl e \<Rightarrow> Inl e
      | Inr dest_bytes \<Rightarrow>
          (case struct_pack_I (length dest_bytes) of
             Inl e \<Rightarrow> Inl e
           | Inr packed_length \<Rightarrow>
               (let dest_info = packed_length @ dest_bytes in
                case serialize message of
                  Inl e \<Rightarrow> Inl e
                | Inr serial_response \<Rightarrow>
                    (case struct_pack_I (length serial_response) of
                       Inl e \<Rightarrow> Inl e
                     | Inr msg_length \<Rightarrow> Inr (dest_info @ msg_length @ serial_response)))))"

text \<open>
  The \<open>while len(data) < full_message_size\<close> loop of \<open>run\<close>. An exception of
  \<open>recv\<close> is not caught here; an empty packet ends the loop with what has been read.
\<close>

lemma payload_loop_measure:
  "packet \<noteq> [] \<Longrightarrow> length data < n \<Longrightarrow>
   n - (length data + length packet) < n - length (data :: bytes)"
  by (cases packet) auto

function recv_payload ::
  "nat \<Rightarrow> bytes \<Rightarrow> ClientThread \<Rightarrow> (exn + bytes) \<times> ClientThread" where
  "recv_payload full_message_size data c =
     (if length data < full_message_size then
        (let grab = (if full_message_size - length data > 1024 then 1024
                     else full_message_size - length data)
         in case conn_recv grab c of
              (Inl e, c') \<Rightarrow> (Inl e, c')
            | (Inr packet, c') \<Rightarrow>
                if packet = [] then (Inr data, emit (Print NoPackets) c')
                else recv_payload full_message_size (data @ packet) c')
      else (Inr data, c))"
  by pat_completeness auto
termination
  by (relation "measure (\<lambda>(n, data, c). n - length data)")
     (auto intro: payload_loop_measure)

declare recv_payload.simps [simp del]

text \<open>
  The text of the unknown-destination error. \<open>str_keys\<close> is how Python 3 renders
  \<open>dict.keys()\<close>, each name between single quotes (the escapes that \<open>repr\<close> adds
  for quotes, backslashes and unprintable characters are not modelled); a destination
  that could not be read is \<open>None\<close>.
\<close>

fun join_str :: "pystr \<Rightarrow> pystr list \<Rightarrow> pystr" where
  "join_str sep [] = []"
| "join_str sep [x] = x"
| "join_str sep (x # y # ys) = x @ sep @ join_str sep (y # ys)"

definition str_keys :: "pystr list \<Rightarrow> pystr" where
  "str_keys ks =
     str_of ''dict_keys(['' @ join_str (str_of '', '')
       (map (\<lambda>k. str_of [CHR 0x27] @ k @ str_of [CHR 0x27]) ks) @ str_of ''])''"

definition format_destination :: "pystr option \<Rightarrow> pystr" where
  "format_destination destination =
     (case destination of None \<Rightarrow> str_of ''None'' | Some d \<Rightarrow> d)"

definition error_msg :: "pystr option \<Rightarrow> pystr list \<Rightarrow> pystr" where
  "error_msg destination ks =
     str_of ''Topic/service destination '' @ str_of [CHR 0x27]
     @ format_destination destination @ str_of [CHR 0x27]
     @ str_of '' is not defined! Known topics are: '' @ str_keys ks @ str_of '' ''"

text \<open>How one pass of the \<open>while self.client_running\<close> loop of \<open>run\<close> ends.\<close>

datatype flow = Continue | Return | Raise exn

text \<open>The branch of \<open>run\<close> for a destination that is not a key of the registry.\<close>

definition unknown_destination :: "pystr option \<Rightarrow> ClientThread \<Rightarrow> flow \<times> ClientThread" where
  "unknown_destination destination c =
     (let msg = error_msg destination (map fst (source_destination_dict (tcp_server c)));
          c1 = shutdown_client c;
          c2 = emit (SendUnityError msg) c1
      in (Raise (TopicOrServiceNameDoesNotExistError msg), c2))"

text \<open>The body of the \<open>try\<close> at the end of \<open>run\<close>: \<open>None\<close> when nothing is raised.\<close>

definition send_and_reply ::
  "pystr \<Rightarrow> endpoint \<Rightarrow> bytes \<Rightarrow> ClientThread \<Rightarrow> exn option \<times> ClientThread" where
  "send_and_reply destination ros_communicator data c =
     (let c1 = emit (EndpointSend destination data) c in
      case ros_communicator data of
        Inl e \<Rightarrow> (Some e, c1)
      | Inr None \<Rightarrow> (None, c1)
      | Inr (Some response) \<Rightarrow>
          (case serialize_message destination response of
             Inl e \<Rightarrow> (Some e, c1)
           | Inr response_message \<Rightarrow> conn_send response_message c1))"

text \<open>The \<open>destination == '__syscommand'\<close> branch of \<open>run\<close>.\<close>

definition syscommand_branch :: "bytes \<Rightarrow> ClientThread \<Rightarrow> flow \<times> ClientThread" where
  "syscommand_branch data c =
     (let c1 = emit (HandleSyscommand data) c in
      case handle_syscommand (tcp_server c) data of
        Some e \<Rightarrow> (Raise e, c1)
      | None \<Rightarrow> (Return, shutdown_client c1))"

text \<open>The \<open>destination == '__handshake'\<close> branch of \<open>run\<close>.\<close>

definition handshake_branch :: "bytes \<Rightarrow> ClientThread \<Rightarrow> flow \<times> ClientThread" where
  "handshake_branch data c =
     (let c1 = emit (Handshake (incoming_ip c) data) c in
      case handshake (tcp_server c) (incoming_ip c) data of
        Inl e \<Rightarrow> (Raise e, c1)
      | Inr response \<Rightarrow>
          (case serialize_message (str_of ''__handshake'') response of
             Inl e \<Rightarrow> (Raise e, c1)
           | Inr response_message \<Rightarrow>
               (case conn_send response_message c1 of
                  (Some e, c2) \<Rightarrow> (Raise e, c2)
                | (None, c2) \<Rightarrow> (Return, shutdown_client c2))))"

text \<open>The \<open>try\<close> at the end of \<open>run\<close> with its \<open>except Exception\<close> clause.\<close>

definition dispatch ::
  "pystr \<Rightarrow> endpoint \<Rightarrow> bytes \<Rightarrow> ClientThread \<Rightarrow> flow \<times> ClientThread" where
  "dispatch destination ros_communicator data c =
     (case send_and_reply destination ros_communicator data c of
        (Some e, c1) \<Rightarrow> (Return, shutdown_client (emit (Print (ExceptionRaised e)) c1))
      | (None, c1) \<Rightarrow> (Continue, c1))"

text \<open>
  \<open>run\<close> from \<open>if not data\<close> to the end of the loop body: the empty-payload guard, the
  two reserved destinations, the registry lookup and the dispatch.
\<close>

definition route ::
  "pystr option \<Rightarrow> nat \<Rightarrow> bytes \<Rightarrow> ClientThread \<Rightarrow> flow \<times> ClientThread" where
  "route destination full_message_size data c =
     (if data = [] then
        (Return, shutdown_client (emit (Print (NoData full_message_size)) c))
      else if destination = Some (str_of ''__syscommand'') then syscommand_branch data c
      else if destination = Some (str_of ''__handshake'') then handshake_branch data c
      else
        (case destination of
           None \<Rightarrow> unknown_destination destination c
         | Some d \<Rightarrow>
             (case map_of (source_destination_dict (tcp_server c)) d of
                None \<Rightarrow> unknown_destination destination c
              | Some ros_communicator \<Rightarrow> dispatch d ros_communicator data c)))"

text \<open>
  One pass of the loop of \<open>run\<close>. When \<open>read_int32\<close> has returned \<open>None\<close> for the
  message size, \<open>len(data) < full_message_size\<close> raises \<open>TypeError\<close> (Python 3),
  which nothing in \<open>run\<close> catches.
\<close>

definition run_body :: "ClientThread \<Rightarrow> flow \<times> ClientThread" where
  "run_body c =
     (case validate_preamble c of
        (False, c1) \<Rightarrow> (Return, shutdown_client (emit (Print InvalidPreamble) c1))
      | (True, c1) \<Rightarrow>
          (case read_string c1 of
             (destination, c2) \<Rightarrow>
               (case read_int32 c2 of
                  (None, c3) \<Rightarrow> (Raise TypeError, c3)
                | (Some full_message_size, c3) \<Rightarrow>
                    (case recv_payload full_message_size [] c3 of
                       (Inl e, c4) \<Rightarrow> (Raise e, c4)
                     | (Inr data, c4) \<Rightarrow> route destination full_message_size data c4))))"

subsection \<open>The loop of \<open>run\<close> ends\<close>

text \<open>
  Every pass of the loop that continues has taken a whole preamble from the stream, so
  the number of bytes the transport still holds goes down.
\<close>

definition pending :: "ClientThread \<Rightarrow> nat" where
  "pending c = length (concat (incoming (conn c)))"

lemma conn_emit [simp]: "conn (emit ev c) = conn c"
  by (simp add: emit_def)

lemma pending_emit [simp]: "pending (emit ev c) = pending c"
  by (simp add: pending_def)

lemma pending_shutdown_client [simp]: "pending (shutdown_client c) = pending c"
  by (simp add: pending_def shutdown_client_def emit_def)

lemma conn_recv_pending:
  "conn_recv n c = (r, c') \<Longrightarrow>
   pending c' + (case r of Inl e \<Rightarrow> 0 | Inr raw \<Rightarrow> length raw) = pending c"
  by (auto simp: conn_recv_def pending_def split: if_splits list.splits)

lemma conn_send_pending: "conn_send m c = (r, c') \<Longrightarrow> pending c' = pending c"
  by (auto simp: conn_send_def split: if_splits option.splits)

lemma validate_preamble_loop_pending:
  "validate_preamble_loop n data c = (r, c') \<Longrightarrow>
   pending c' + (case r of Inl e \<Rightarrow> 0 | Inr d \<Rightarrow> length d) \<le> pending c + length data"
proof (induction n data c rule: validate_preamble_loop.induct)
  case (1 n data c)
  show ?case
  proof (cases "n > 0")
    case False
    then show ?thesis using "1.prems" by (auto simp add: validate_preamble_loop.simps)
  next
    case True
    obtain r1 c1 where rc: "conn_recv n c = (r1, c1)" by (cases "conn_recv n c")
    note p = conn_recv_pending [OF rc]
    show ?thesis
    proof (cases r1)
      case (Inl e)
      then show ?thesis using "1.prems" True rc p
        by (simp add: validate_preamble_loop.simps [of n])
    next
      case (Inr raw)
      show ?thesis
      proof (cases "raw = []")
        case True
        then show ?thesis using "1.prems" \<open>n > 0\<close> rc p Inr
          by (auto simp add: validate_preamble_loop.simps [of n])
      next
        case False
        have "validate_preamble_loop (n - length raw) (data @ raw) c1 = (r, c')"
          using "1.prems" \<open>n > 0\<close> rc Inr False
          by (simp add: validate_preamble_loop.simps [of n])
        from "1.IH" [OF \<open>n > 0\<close> rc [symmetric] Inr False this] p Inr
        show ?thesis by (simp split: sum.splits)
      qed
    qed
  qed
qed

lemma validate_preamble_pending:
  "validate_preamble c = (True, c') \<Longrightarrow> pending c' + 4 \<le> pending c"
  using validate_preamble_loop_pending [of "length Preamble" "[]" c]
  by (auto simp: validate_preamble_def Preamble_def split: prod.splits sum.splits if_splits)

lemma validate_preamble_pending_le:
  "validate_preamble c = (b, c') \<Longrightarrow> pending c' \<le> pending c"
  using validate_preamble_loop_pending [of "length Preamble" "[]" c]
  by (auto simp: validate_preamble_def split: prod.splits sum.splits if_splits)

lemma read_int32_pending: "read_int32 c = (r, c') \<Longrightarrow> pending c' \<le> pending c"
  using conn_recv_pending [of 4 c]
  by (auto simp: read_int32_def split: prod.splits sum.splits)

lemma read_string_pending: "read_string c = (r, c') \<Longrightarrow> pending c' \<le> pending c"
  unfolding read_string_def
  by (auto split: prod.splits sum.splits option.splits
       dest!: read_int32_pending conn_recv_pending)

lemma recv_payload_pending:
  "recv_payload n data c = (r, c') \<Longrightarrow> pending c' \<le> pending c"
proof (induction n data c rule: recv_payload.induct)
  case (1 n data c)
  show ?case
  proof (cases "length data < n")
    case False
    then show ?thesis using "1.prems" by (simp add: recv_payload.simps)
  next
    case True
    define grab where "grab = (if n - length data > 1024 then 1024 else n - length data)"
    obtain r1 c1 where rc: "conn_recv grab c = (r1, c1)" by (cases "conn_recv grab c")
    note p = conn_recv_pending [OF rc]
    show ?thesis
    proof (cases r1)
      case (Inl e)
      then show ?thesis using "1.prems" True rc p
        by (simp add: recv_payload.simps [of n data] grab_def [symmetric])
    next
      case (Inr packet)
      show ?thesis
      proof (cases "packet = []")
        case True
        then show ?thesis using "1.prems" \<open>length data < n\<close> rc p Inr
          by (auto simp add: recv_payload.simps [of n data] grab_def [symmetric])
      next
        case False
        have "recv_payload n (data @ packet) c1 = (r, c')"
          using "1.prems" \<open>length data < n\<close> rc Inr False
          by (simp add: recv_payload.simps [of n data] grab_def [symmetric])
        from "1.IH" [OF \<open>length data < n\<close> grab_def rc [symmetric] Inr False this] p Inr
        show ?thesis by simp
      qed
    qed
  qed
qed

lemma send_and_reply_pending:
  "send_and_reply d ep data c = (r, c') \<Longrightarrow> pending c' = pending c"
  by (auto simp: send_and_reply_def Let_def split: sum.splits option.splits
       dest!: conn_send_pending)

lemma syscommand_branch_pending:
  "syscommand_branch data c = (f, c') \<Longrightarrow> pending c' = pending c"
  by (auto simp: syscommand_branch_def Let_def split: option.splits)

lemma handshake_branch_pending:
  "handshake_branch data c = (f, c') \<Longrightarrow> pending c' = pending c"
  by (auto simp: handshake_branch_def Let_def split: sum.splits option.splits prod.splits
       dest!: conn_send_pending)

lemma unknown_destination_pending:
  "unknown_destination d c = (f, c') \<Longrightarrow> pending c' = pending c"
  by (auto simp: unknown_destination_def Let_def)

lemma dispatch_pending:
  "dispatch d ep data c = (f, c') \<Longrightarrow> pending c' = pending c"
  by (auto simp: dispatch_def split: option.splits prod.splits
       dest!: send_and_reply_pending)

lemma route_pending: "route d n data c = (f, c') \<Longrightarrow> pending c' = pending c"
  unfolding route_def
  by (auto split: if_splits option.splits
       dest: syscommand_branch_pending handshake_branch_pending
             unknown_destination_pending dispatch_pending)

lemma run_body_Continue_pending:
  "run_body c = (Continue, c') \<Longrightarrow> pending c' < pending c"
  unfolding run_body_def
  by (auto split: prod.splits bool.splits option.splits sum.splits
       dest!: validate_preamble_pending read_string_pending read_int32_pending
              recv_payload_pending route_pending)

text \<open>
  \<open>run\<close>: the exception that leaves it, if any, and the handler afterwards.
\<close>

function run :: "ClientThread \<Rightarrow> exn option \<times> ClientThread" where
  "run c =
     (if client_running c then
        (case run_body c of
           (Continue, c') \<Rightarrow> run c'
         | (Return, c') \<Rightarrow> (None, c')
         | (Raise e, c') \<Rightarrow> (Some e, c'))
      else (None, c))"
  by pat_completeness auto
termination
  by (relation "measure pending") (auto dest: run_body_Continue_pending [OF sym])

declare run.simps [simp del]

section \<open>\<open>subscriber.py\<close>: the outbound channel\<close>

text \<open>
  The fields of \<open>self.tcp_server.unity_tcp_sender\<close> that \<open>create_new_connection\<close>
  reads and writes.
\<close>

record unity_tcp_sender =
  unity_ip :: pystr
  unity_port :: nat
  unity_ip_error_message_printed :: bool

text \<open>
  What one call of \<open>send\<close> meets outside the object: the answer of
  \<open>rospy.is_shutdown()\<close>, and for \<open>socket.socket(...)\<close>, for the three calls that
  set the new socket up and connect it, and for \<open>socket.send\<close> the text of the
  exception raised, if one is.
\<close>

record environment =
  is_shutdown :: bool
  create_fails :: "pystr option"
  connect_fails :: "pystr option"
  send_fails :: "pystr option"

text \<open>
  The effects of a channel, in order. A socket object is named by the number of sockets
  the channel had made before it.
\<close>

datatype channel_event =
    SocketCreate nat
  | SocketConnect nat pystr nat
  | SocketSend nat bytes
  | SocketSendFailed nat bytes
  | SocketClose nat
  | LogInfo pystr
  | PrintNoUnityIp pystr

text \<open>
  The fields of \<open>RosSubscriber\<close> that \<open>send\<close> uses (\<open>msg\<close> is the message class,
  by name), with the number of sockets made so far and the history of effects.
\<close>

record RosSubscriber =
  topic :: pystr
  msg :: string
  socket :: "nat option"
  connected :: bool
  most_recent_exception_message :: pystr
  unity_tcp_sender :: unity_tcp_sender
  sockets_made :: nat
  history :: "channel_event list"

definition RosSubscriber_init :: "pystr \<Rightarrow> string \<Rightarrow> unity_tcp_sender \<Rightarrow> RosSubscriber" where
  "RosSubscriber_init tp message_class sender =
     \<lparr>topic = tp, msg = message_class, socket = None, connected = False,
      most_recent_exception_message = [], unity_tcp_sender = sender, sockets_made = 0,
      history = []\<rparr>"

definition remember :: "channel_event \<Rightarrow> RosSubscriber \<Rightarrow> RosSubscriber" where
  "remember ev s = s\<lparr>history := history s @ [ev]\<rparr>"

text \<open>
  The three lines that both \<open>except\<close> clauses of the module end with: the text is
  logged when it differs from the one logged last.
\<close>

definition log_exception :: "exn \<Rightarrow> RosSubscriber \<Rightarrow> RosSubscriber" where
  "log_exception e s =
     (let exception_message = str_of ''Exception '' @ str_exn e in
      if \<not> exception_message = most_recent_exception_message s
      then remember (LogInfo exception_message)
             (s\<lparr>most_recent_exception_message := exception_message\<rparr>)
      else s)"

definition create_new_connection :: "environment \<Rightarrow> RosSubscriber \<Rightarrow> bool \<times> RosSubscriber" where
  "create_new_connection env s =
     (if unity_ip (unity_tcp_sender s) = [] then
        (if \<not> unity_ip_error_message_printed (unity_tcp_sender s)
         then (False, remember (PrintNoUnityIp (topic s))
                 (s\<lparr>unity_tcp_sender :=
                      (unity_tcp_sender s)\<lparr>unity_ip_error_message_printed := True\<rparr>\<rparr>))
         else (False, s))
      else
        (case create_fails env of
           Some t \<Rightarrow> (False, log_exception (SocketError t) s)
         | None \<Rightarrow>
             (let sid = sockets_made s;
                  s1 = remember (SocketCreate sid) (s\<lparr>socket := Some sid, sockets_made := Suc sid\<rparr>);
                  s2 = remember (SocketConnect sid (unity_ip (unity_tcp_sender s))
                               (unity_port (unity_tcp_sender s))) s1
              in case connect_fails env of
                   Some t \<Rightarrow> (False, log_exception (SocketError t) s2)
                 | None \<Rightarrow> (True, s2))))"

definition close_connection_if_applicable :: "RosSubscriber \<Rightarrow> RosSubscriber" where
  "close_connection_if_applicable s =
     (let s1 = s\<lparr>connected := False\<rparr> in
      case socket s1 of
        None \<Rightarrow> s1
      | Some sid \<Rightarrow> remember (SocketClose sid) s1)"

text \<open>
  \<open>self.socket.send(serialized_message)\<close>; on \<open>None\<close> the attribute lookup raises.
\<close>

definition socket_send :: "environment \<Rightarrow> bytes \<Rightarrow> RosSubscriber \<Rightarrow> exn option \<times> RosSubscriber" where
  "socket_send env buffer s =
     (case socket s of
        None \<Rightarrow> (Some AttributeError, s)
      | Some sid \<Rightarrow>
          (case send_fails env of
             Some t \<Rightarrow> (Some (SocketError t), remember (SocketSendFailed sid buffer) s)
           | None \<Rightarrow> (None, remember (SocketSend sid buffer) s)))"

text \<open>The \<open>except Exception\<close> clause of \<open>send\<close>.\<close>

definition send_failed :: "exn \<Rightarrow> RosSubscriber \<Rightarrow> RosSubscriber" where
  "send_failed e s = log_exception e (close_connection_if_applicable s)"

text \<open>
  \<open>send\<close>: what it returns (\<open>None\<close>, or the message class \<open>self.msg\<close>) and the
  channel afterwards.
\<close>

definition send :: "environment \<Rightarrow> message \<Rightarrow> RosSubscriber \<Rightarrow> string option \<times> RosSubscriber" where
  "send env data s =
     (if is_shutdown env then (None, s)
      else
        (case (if \<not> connected s then
                 (case create_new_connection env s of
                    (True, s1) \<Rightarrow> (True, s1\<lparr>connected := True\<rparr>)
                  | (False, s1) \<Rightarrow> (False, s1))
               else (True, s)) of
           (False, s1) \<Rightarrow> (None, s1)
         | (True, s1) \<Rightarrow>
             (let s2 =
                (case serialize_message (topic s1) data of
                   Inl e \<Rightarrow> send_failed e s1
                 | Inr serialized_message \<Rightarrow>
                     (case socket_send env serialized_message s1 of
                        (Some e, s') \<Rightarrow> send_failed e s'
                      | (None, s') \<Rightarrow> s'))
              in (Some (msg s2), s2))))"

section \<open>Notions the statements use\<close>

text \<open>How often the socket's \<open>close\<close> has been called.\<close>

definition close_calls :: "ClientThread \<Rightarrow> nat" where
  "close_calls c = length (filter (\<lambda>ev. ev = ConnClose) (trace c))"

text \<open>
  \<open>closed_once\<close>: a running handler has never closed its socket, one that is not
  running has closed it exactly once.
\<close>

definition life :: "ClientThread \<Rightarrow> bool \<times> nat" where
  "life c = (client_running c, close_calls c)"

definition closed_once :: "ClientThread \<Rightarrow> bool" where
  "closed_once c = (close_calls c = (if client_running c then 0 else 1))"

text \<open>
  The handler with other segments waiting, and the segments that wait when the front
  segment has been read up to \<open>seg\<close>.
\<close>

definition set_incoming :: "bytes list \<Rightarrow> ClientThread \<Rightarrow> ClientThread" where
  "set_incoming segs c = c\<lparr>conn := (conn c)\<lparr>incoming := segs\<rparr>\<rparr>"

definition unread :: "bytes \<Rightarrow> bytes list \<Rightarrow> bytes list" where
  "unread seg segs = (if seg = [] then segs else seg # segs)"

text \<open>
  The field readers in the order \<open>run\<close> calls them after the preamble:
  \<open>read_string\<close>, \<open>read_int32\<close> and the payload loop.
\<close>

definition decode_fields :: "ClientThread \<Rightarrow> (pystr \<times> bytes) option \<times> ClientThread" where
  "decode_fields c =
     (case read_string c of
        (None, c1) \<Rightarrow> (None, c1)
      | (Some destination, c1) \<Rightarrow>
          (case read_int32 c1 of
             (None, c2) \<Rightarrow> (None, c2)
           | (Some full_message_size, c2) \<Rightarrow>
               (case recv_payload full_message_size [] c2 of
                  (Inl e, c3) \<Rightarrow> (None, c3)
                | (Inr data, c3) \<Rightarrow> (Some (destination, data), c3))))"

text \<open>
  The reading part of one pass of the loop of \<open>run\<close>, from \<open>validate_preamble\<close> to
  the end of the payload loop: the preamble is refused, or a read raises out of
  \<open>run\<close>, or a destination (if it could be read), a declared size and the payload
  bytes received are handed to the routing. \<open>only_read\<close> relates a handler to one that
  differs only by segments taken from the socket and lines printed.
\<close>

datatype read_result = BadPreamble | ReadRaised exn | FrameRead "pystr option" nat bytes

definition read_frame :: "ClientThread \<Rightarrow> read_result \<times> ClientThread" where
  "read_frame c =
     (case validate_preamble c of
        (False, c1) \<Rightarrow> (BadPreamble, c1)
      | (True, c1) \<Rightarrow>
          (case read_string c1 of
             (destination, c2) \<Rightarrow>
               (case read_int32 c2 of
                  (None, c3) \<Rightarrow> (ReadRaised TypeError, c3)
                | (Some full_message_size, c3) \<Rightarrow>
                    (case recv_payload full_message_size [] c3 of
                       (Inl e, c4) \<Rightarrow> (ReadRaised e, c4)
                     | (Inr data, c4) \<Rightarrow> (FrameRead destination full_message_size data, c4)))))"

definition only_read :: "ClientThread \<Rightarrow> ClientThread \<Rightarrow> bool" where
  "only_read c c' =
     (\<exists>segs ls. c' = c\<lparr>conn := (conn c)\<lparr>incoming := segs\<rparr>, trace := trace c @ map Print ls\<rparr>)"

text \<open>
  A server for the examples: \<open>a\<close> is a publisher (its \<open>send\<close> returns nothing), the
  \<open>send\<close> of \<open>b\<close> raises, and the handshake raises on the payload \<open>00\<close> and
  answers every other with a one-byte message. \<open>example_client\<close> is a new handler
  whose peer sends the given segments and then closes.
\<close>

definition example_server :: tcp_server where
  "example_server =
     \<lparr>source_destination_dict =
        [(str_of ''a'', \<lambda>data. Inr None),
         (str_of ''b'', \<lambda>data. Inl (CollaboratorError (str_of ''boom'')))],
      handle_syscommand = (\<lambda>data. None),
      handshake = (\<lambda>ip data. if data = [0] then Inl (CollaboratorError (str_of ''refused''))
                               else Inr (Message [7]))\<rparr>"

definition example_client :: "bytes list \<Rightarrow> ClientThread" where
  "example_client segs =
     ClientThread_init \<lparr>incoming = segs, send_error = None, closed = False\<rparr>
       example_server (str_of ''10.0.0.2'') 5005"

text \<open>
  For the outbound channel: what the \<open>except\<close> clauses log for an exception (nothing
  when its text is the one logged last), when a connection can be established (the
  peer address is known, and neither the creation of the socket nor the connect raises),
  and a channel and environments for the examples.
\<close>

definition logged :: "exn \<Rightarrow> RosSubscriber \<Rightarrow> channel_event list" where
  "logged e s =
     (if str_of ''Exception '' @ str_exn e = most_recent_exception_message s then []
      else [LogInfo (str_of ''Exception '' @ str_exn e)])"

definition can_connect :: "environment \<Rightarrow> RosSubscriber \<Rightarrow> bool" where
  "can_connect env s =
     (unity_ip (unity_tcp_sender s) \<noteq> [] \<and> create_fails env = None
      \<and> connect_fails env = None)"

definition example_channel :: RosSubscriber where
  "example_channel =
     RosSubscriber_init (str_of ''/pos'') ''PosRot''
       \<lparr>unity_ip = str_of ''10.0.0.5'', unity_port = 5005,
        unity_ip_error_message_printed = False\<rparr>"

definition example_environment :: "pystr option \<Rightarrow> pystr option \<Rightarrow> environment" where
  "example_environment connect_error send_error_text =
     \<lparr>is_shutdown = False, create_fails = None, connect_fails = connect_error,
      send_fails = send_error_text\<rparr>"

section \<open>The codecs are inverse to each other\<close>

lemma le_combine:
  "n = 256 * a + r0 \<Longrightarrow> a = 256 * b + r1 \<Longrightarrow> b = 256 * c + r2 \<Longrightarrow>
   r0 + 256 * r1 + 65536 * r2 + 16777216 * c = (n::nat)"
  by simp

lemma le4:
  assumes "(n::nat) < 4294967296"
  shows "n mod 256 + 256 * (n div 256 mod 256) + 65536 * (n div 65536 mod 256)
         + 16777216 * (n div 16777216 mod 256) = n"
proof -
  have d2: "n div 65536 = n div 256 div 256" by (simp add: div_mult2_eq)
  have d3: "n div 16777216 = n div 256 div 256 div 256" by (simp add: div_mult2_eq)
  have small: "n div 16777216 < 256" using assms by (simp add: less_mult_imp_div_less)
  have m3: "n div 16777216 mod 256 = n div 256 div 256 div 256" using small d3 by simp
  show ?thesis
    unfolding m3 d2
    by (rule le_combine) (rule mult_div_mod_eq [symmetric])+
qed

lemma struct_unpack_pack:
  "struct_pack_I n = Inr bs \<Longrightarrow> struct_unpack_I bs = Inr n"
proof -
  assume a: "struct_pack_I n = Inr bs"
  then have n: "n < 2 ^ 32" by (simp add: struct_pack_I_def split: if_splits)
  then have n': "n < 4294967296" by simp
  have "struct_pack_I n = Inr [of_nat (n mod 256), of_nat (n div 256 mod 256),
                of_nat (n div 65536 mod 256), of_nat (n div 16777216 mod 256)]"
    unfolding struct_pack_I_def using n by (simp only: if_True)
  with a have bs: "bs = [of_nat (n mod 256), of_nat (n div 256 mod 256),
                of_nat (n div 65536 mod 256), of_nat (n div 16777216 mod 256)]"
    by (simp only: sum.inject)
  have u: "\<And>k. unat (of_nat (k mod 256) :: byte) = k mod 256"
    by (simp add: unat_of_nat)
  show ?thesis unfolding bs struct_unpack_I_def
    by (simp only: list.case u le4 [OF n'])
qed

lemma struct_pack_length:
  "struct_pack_I n = Inr bs \<Longrightarrow> length bs = 4"
  by (auto simp: struct_pack_I_def split: if_splits)


lemma unat_byte: "n < 256 \<Longrightarrow> unat (of_nat n :: byte) = n"
  by (simp add: unat_of_nat)

lemma dec2:
  "unat b0 = 0xC0 + q \<Longrightarrow> unat b1 = 0x80 + r \<Longrightarrow> 2 \<le> q \<Longrightarrow> q < 32 \<Longrightarrow> r < 64 \<Longrightarrow>
   utf8_decode_cp (b0 # b1 # rest) = Some (q * 64 + r, rest)"
  by (simp add: is_continuation_def Let_def)

lemma dec3:
  "unat b0 = 0xE0 + q2 \<Longrightarrow> unat b1 = 0x80 + q1 \<Longrightarrow> unat b2 = 0x80 + r \<Longrightarrow>
   q2 < 16 \<Longrightarrow> q1 < 64 \<Longrightarrow> r < 64 \<Longrightarrow> cp = q2 * 4096 + q1 * 64 + r \<Longrightarrow>
   0x800 \<le> cp \<Longrightarrow> \<not> (0xD800 \<le> cp \<and> cp \<le> 0xDFFF) \<Longrightarrow>
   utf8_decode_cp (b0 # b1 # b2 # rest) = Some (cp, rest)"
  by (simp add: is_continuation_def Let_def)

lemma dec4:
  "unat b0 = 0xF0 + q3 \<Longrightarrow> unat b1 = 0x80 + q2 \<Longrightarrow> unat b2 = 0x80 + q1 \<Longrightarrow>
   unat b3 = 0x80 + r \<Longrightarrow>
   q3 < 5 \<Longrightarrow> q2 < 64 \<Longrightarrow> q1 < 64 \<Longrightarrow> r < 64 \<Longrightarrow>
   cp = q3 * 262144 + q2 * 4096 + q1 * 64 + r \<Longrightarrow>
   0x10000 \<le> cp \<Longrightarrow> cp < 0x110000 \<Longrightarrow>
   utf8_decode_cp (b0 # b1 # b2 # b3 # rest) = Some (cp, rest)"
  by (simp add: is_continuation_def Let_def)

lemma split2: "(cp::nat) = (cp div 64) * 64 + cp mod 64"
  by simp

lemma split3: "(cp::nat) = (cp div 4096) * 4096 + (cp div 64 mod 64) * 64 + cp mod 64"
proof -
  have "cp div 4096 = cp div 64 div 64" by (simp add: div_mult2_eq)
  moreover have "cp div 64 = (cp div 64 div 64) * 64 + cp div 64 mod 64" by simp
  moreover have "cp = (cp div 64) * 64 + cp mod 64" by simp
  ultimately show ?thesis by linarith
qed

lemma split4:
  "(cp::nat) = (cp div 262144) * 262144 + (cp div 4096 mod 64) * 4096
               + (cp div 64 mod 64) * 64 + cp mod 64"
proof -
  have "cp div 262144 = cp div 4096 div 64" by (simp add: div_mult2_eq)
  moreover have "cp div 4096 = (cp div 4096 div 64) * 64 + cp div 4096 mod 64" by simp
  moreover note split3 [of cp]
  ultimately show ?thesis by linarith
qed

lemma utf8_decode_cp_encode:
  assumes "utf8_encode_cp cp = Some bs"
  shows "utf8_decode_cp (bs @ rest) = Some (cp, rest)"
proof -
  have r: "cp mod 64 < 64" "cp div 64 mod 64 < 64" "cp div 4096 mod 64 < 64" by simp_all
  consider (a) "cp < 0x80" | (b) "0x80 \<le> cp" "cp < 0x800"
    | (c) "0x800 \<le> cp" "cp < 0x10000" | (d) "0x10000 \<le> cp" "cp < 0x110000"
    | (e) "0x110000 \<le> cp"
    by linarith
  then show ?thesis
  proof cases
    case a
    then have "bs = [of_nat cp]" using assms by (simp add: utf8_encode_cp_def)
    then show ?thesis using a by (simp add: unat_byte)
  next
    case b
    define q where "q = cp div 64"
    define r0 where "r0 = cp mod 64"
    have bs: "bs = [of_nat (0xC0 + q), of_nat (0x80 + r0)]"
      using assms b unfolding utf8_encode_cp_def q_def r0_def by (simp del: of_nat_add)
    have q: "2 \<le> q" "q < 32"
      using b div_le_mono [of 128 cp 64] by (simp_all add: q_def less_mult_imp_div_less)
    have r0: "r0 < 64" by (simp add: r0_def)
    have "utf8_decode_cp (of_nat (0xC0 + q) # of_nat (0x80 + r0) # rest)
        = Some (q * 64 + r0, rest)"
      using q r0 by (intro dec2 unat_byte) simp_all
    moreover have "q * 64 + r0 = cp" by (simp add: q_def r0_def)
    ultimately show ?thesis unfolding bs by simp
  next
    case c
    then have ns: "\<not> (0xD800 \<le> cp \<and> cp \<le> 0xDFFF)"
      using assms by (auto simp: utf8_encode_cp_def split: if_splits)
    define q2 where "q2 = cp div 4096"
    define q1 where "q1 = cp div 64 mod 64"
    define r0 where "r0 = cp mod 64"
    have bs: "bs = [of_nat (0xE0 + q2), of_nat (0x80 + q1), of_nat (0x80 + r0)]"
      using assms c ns unfolding utf8_encode_cp_def q2_def q1_def r0_def
      by (simp del: of_nat_add)
    have q: "q2 < 16" "q1 < 64" "r0 < 64"
      using c by (simp_all add: q2_def q1_def r0_def less_mult_imp_div_less)
    have cp: "cp = q2 * 4096 + q1 * 64 + r0"
      unfolding q2_def q1_def r0_def by (rule split3)
    have "utf8_decode_cp (of_nat (0xE0 + q2) # of_nat (0x80 + q1) # of_nat (0x80 + r0) # rest)
        = Some (cp, rest)"
      using q c(1) ns by (intro dec3 [OF _ _ _ _ _ _ cp] unat_byte) simp_all
    then show ?thesis unfolding bs by simp
  next
    case d
    define q3 where "q3 = cp div 262144"
    define q2 where "q2 = cp div 4096 mod 64"
    define q1 where "q1 = cp div 64 mod 64"
    define r0 where "r0 = cp mod 64"
    have bs: "bs = [of_nat (0xF0 + q3), of_nat (0x80 + q2), of_nat (0x80 + q1),
                    of_nat (0x80 + r0)]"
      using assms d unfolding utf8_encode_cp_def q3_def q2_def q1_def r0_def
      by (simp del: of_nat_add)
    have q: "q3 < 5" "q2 < 64" "q1 < 64" "r0 < 64"
      using d by (simp_all add: q3_def q2_def q1_def r0_def less_mult_imp_div_less)
    have cp: "cp = q3 * 262144 + q2 * 4096 + q1 * 64 + r0"
      unfolding q3_def q2_def q1_def r0_def by (rule split4)
    have "utf8_decode_cp (of_nat (0xF0 + q3) # of_nat (0x80 + q2) # of_nat (0x80 + q1)
             # of_nat (0x80 + r0) # rest) = Some (cp, rest)"
      using q d by (intro dec4 [OF _ _ _ _ _ _ _ _ cp] unat_byte) simp_all
    then show ?thesis unfolding bs by simp
  next
    case e
    then show ?thesis using assms by (simp add: utf8_encode_cp_def)
  qed
qed

lemma utf8_encode_cp_nonempty:
  "utf8_encode_cp cp = Some bs \<Longrightarrow> bs \<noteq> []"
  by (auto simp: utf8_encode_cp_def split: if_splits)

lemma utf8_decode_encode:
  "utf8_encode s = Inr bs \<Longrightarrow> utf8_decode bs = Inr s"
proof (induction s arbitrary: bs)
  case Nil
  then show ?case by (simp add: utf8_decode.simps)
next
  case (Cons cp s)
  then obtain b r where b: "utf8_encode_cp cp = Some b" and r: "utf8_encode s = Inr r"
    and bs: "bs = b @ r"
    by (auto split: option.splits sum.splits)
  have "utf8_decode r = Inr s" using Cons.IH r by simp
  moreover have "b @ r \<noteq> []" using utf8_encode_cp_nonempty [OF b] by simp
  ultimately show ?case
    using utf8_decode_cp_encode [OF b, of r] bs
    by (subst utf8_decode.simps) simp
qed

lemma encodable_cp:
  "cp < 0x110000 \<Longrightarrow> \<not> (0xD800 \<le> cp \<and> cp \<le> 0xDFFF) \<Longrightarrow> \<exists>bs. utf8_encode_cp cp = Some bs"
  unfolding utf8_encode_cp_def by (simp del: of_nat_add)

lemma encodable_utf8_encode:
  "encodable s \<Longrightarrow> \<exists>bs. utf8_encode s = Inr bs"
proof (induction s)
  case Nil
  then show ?case by simp
next
  case (Cons cp s)
  then obtain r where r: "utf8_encode s = Inr r" by (auto simp: encodable_def)
  from Cons.prems obtain b where "utf8_encode_cp cp = Some b"
    using encodable_cp [of cp] by (auto simp: encodable_def)
  with r show ?case by simp
qed

section \<open>The socket is closed at most once\<close>

lemma life_emit: "ev \<noteq> ConnClose \<Longrightarrow> life (emit ev c) = life c"
  by (simp add: life_def close_calls_def emit_def)

lemma life_conn_recv: "conn_recv n c = (r, c') \<Longrightarrow> life c' = life c"
  by (auto simp: conn_recv_def life_def close_calls_def split: if_splits list.splits)

lemma life_conn_send: "conn_send m c = (r, c') \<Longrightarrow> life c' = life c"
  by (auto simp: conn_send_def life_emit split: if_splits option.splits)

lemma life_validate_preamble_loop:
  "validate_preamble_loop n data c = (r, c') \<Longrightarrow> life c' = life c"
proof (induction n data c rule: validate_preamble_loop.induct)
  case (1 n data c)
  show ?case
  proof (cases "n > 0")
    case False
    then show ?thesis using "1.prems" by (auto simp add: validate_preamble_loop.simps)
  next
    case True
    obtain r1 c1 where rc: "conn_recv n c = (r1, c1)" by (cases "conn_recv n c")
    note p = life_conn_recv [OF rc]
    show ?thesis
    proof (cases r1)
      case (Inl e)
      then show ?thesis using "1.prems" True rc p
        by (auto simp add: validate_preamble_loop.simps [of n])
    next
      case (Inr raw)
      show ?thesis
      proof (cases "raw = []")
        case True
        then show ?thesis using "1.prems" \<open>n > 0\<close> rc p Inr
          by (auto simp add: validate_preamble_loop.simps [of n])
      next
        case False
        have "validate_preamble_loop (n - length raw) (data @ raw) c1 = (r, c')"
          using "1.prems" \<open>n > 0\<close> rc Inr False
          by (simp add: validate_preamble_loop.simps [of n])
        from "1.IH" [OF \<open>n > 0\<close> rc [symmetric] Inr False this] p
        show ?thesis by simp
      qed
    qed
  qed
qed

lemma life_validate_preamble: "validate_preamble c = (b, c') \<Longrightarrow> life c' = life c"
  by (auto simp: validate_preamble_def life_emit split: prod.splits sum.splits if_splits
       dest!: life_validate_preamble_loop)

lemma life_read_int32: "read_int32 c = (r, c') \<Longrightarrow> life c' = life c"
  by (auto simp: read_int32_def life_emit split: prod.splits sum.splits
       dest!: life_conn_recv)

lemma life_read_string: "read_string c = (r, c') \<Longrightarrow> life c' = life c"
  unfolding read_string_def
  by (auto simp: life_emit split: prod.splits sum.splits option.splits
       dest!: life_read_int32 life_conn_recv)

lemma life_recv_payload:
  "recv_payload n data c = (r, c') \<Longrightarrow> life c' = life c"
proof (induction n data c rule: recv_payload.induct)
  case (1 n data c)
  show ?case
  proof (cases "length data < n")
    case False
    then show ?thesis using "1.prems" by (auto simp add: recv_payload.simps)
  next
    case True
    define grab where "grab = (if n - length data > 1024 then 1024 else n - length data)"
    obtain r1 c1 where rc: "conn_recv grab c = (r1, c1)" by (cases "conn_recv grab c")
    note p = life_conn_recv [OF rc]
    show ?thesis
    proof (cases r1)
      case (Inl e)
      then show ?thesis using "1.prems" True rc p
        by (auto simp add: recv_payload.simps [of n data] grab_def [symmetric])
    next
      case (Inr packet)
      show ?thesis
      proof (cases "packet = []")
        case True
        then show ?thesis using "1.prems" \<open>length data < n\<close> rc p Inr
          by (auto simp add: recv_payload.simps [of n data] grab_def [symmetric] life_emit)
      next
        case False
        have "recv_payload n (data @ packet) c1 = (r, c')"
          using "1.prems" \<open>length data < n\<close> rc Inr False
          by (simp add: recv_payload.simps [of n data] grab_def [symmetric])
        from "1.IH" [OF \<open>length data < n\<close> grab_def rc [symmetric] Inr False this] p
        show ?thesis by simp
      qed
    qed
  qed
qed

lemma life_send_and_reply:
  "send_and_reply d ep data c = (r, c') \<Longrightarrow> life c' = life c"
  by (auto simp: send_and_reply_def Let_def life_emit split: sum.splits option.splits
       dest!: life_conn_send)

lemma closed_once_life: "life c' = life c \<Longrightarrow> closed_once c' = closed_once c"
  by (simp add: life_def closed_once_def)

lemma closed_once_shutdown_client: "closed_once c \<Longrightarrow> closed_once (shutdown_client c)"
  by (simp add: closed_once_def shutdown_client_def close_calls_def emit_def)

lemma closed_once_emit: "ev \<noteq> ConnClose \<Longrightarrow> closed_once (emit ev c) = closed_once c"
  by (rule closed_once_life) (simp add: life_emit)

lemma closed_once_syscommand_branch:
  "closed_once c \<Longrightarrow> syscommand_branch data c = (f, c') \<Longrightarrow> closed_once c'"
  by (auto simp: syscommand_branch_def Let_def closed_once_emit closed_once_shutdown_client
       split: option.splits)

lemma closed_once_handshake_branch:
  assumes "closed_once c" "handshake_branch data c = (f, c')"
  shows "closed_once c'"
proof -
  let ?c1 = "emit (Handshake (incoming_ip c) data) c"
  have c1: "closed_once ?c1" using assms(1) by (simp add: closed_once_emit)
  have s: "\<And>m r c2. conn_send m ?c1 = (r, c2) \<Longrightarrow> closed_once c2"
    using c1 closed_once_life [OF life_conn_send] by blast
  show ?thesis
    using assms(2) c1 s unfolding handshake_branch_def Let_def
    by (auto simp: closed_once_shutdown_client
         split: sum.splits option.splits prod.splits)
qed

lemma closed_once_unknown_destination:
  "closed_once c \<Longrightarrow> unknown_destination d c = (f, c') \<Longrightarrow> closed_once c'"
  by (auto simp: unknown_destination_def Let_def closed_once_emit closed_once_shutdown_client)

lemma closed_once_dispatch:
  assumes "closed_once c" "dispatch d ep data c = (f, c')"
  shows "closed_once c'"
proof -
  have s: "\<And>r c1. send_and_reply d ep data c = (r, c1) \<Longrightarrow> closed_once c1"
    using assms(1) closed_once_life [OF life_send_and_reply] by blast
  show ?thesis
    using assms(2) s unfolding dispatch_def
    by (auto simp: closed_once_shutdown_client closed_once_emit
         split: option.splits prod.splits)
qed

lemma closed_once_route:
  "closed_once c \<Longrightarrow> route d n data c = (f, c') \<Longrightarrow> closed_once c'"
  unfolding route_def
  by (auto simp: closed_once_emit closed_once_shutdown_client
       split: if_splits option.splits
       dest: closed_once_syscommand_branch closed_once_handshake_branch
             closed_once_unknown_destination closed_once_dispatch)

lemma closed_once_run_body:
  assumes "closed_once c" "run_body c = (f, c')"
  shows "closed_once c'"
proof -
  obtain b c1 where v: "validate_preamble c = (b, c1)" by (cases "validate_preamble c")
  have c1: "closed_once c1"
    using closed_once_life [OF life_validate_preamble [OF v]] assms(1) by simp
  show ?thesis
  proof (cases b)
    case False
    then show ?thesis using assms(2) v c1 unfolding run_body_def
      by (auto simp: closed_once_emit closed_once_shutdown_client)
  next
    case True
    obtain d c2 where rs: "read_string c1 = (d, c2)" by (cases "read_string c1")
    obtain z c3 where ri: "read_int32 c2 = (z, c3)" by (cases "read_int32 c2")
    have c3: "closed_once c3"
      using closed_once_life [OF life_read_string [OF rs]]
        closed_once_life [OF life_read_int32 [OF ri]] c1
      by simp
    show ?thesis
    proof (cases z)
      case None
      then show ?thesis using assms(2) v True rs ri c3 unfolding run_body_def by auto
    next
      case (Some n)
      obtain r c4 where rp: "recv_payload n [] c3 = (r, c4)"
        by (cases "recv_payload n [] c3")
      have c4: "closed_once c4"
        using closed_once_life [OF life_recv_payload [OF rp]] c3 by simp
      show ?thesis
      proof (cases r)
        case (Inl e)
        then show ?thesis using assms(2) v True rs ri Some rp c4
          unfolding run_body_def by auto
      next
        case (Inr data)
        then have "route d n data c4 = (f, c')"
          using assms(2) v True rs ri Some rp unfolding run_body_def by auto
        then show ?thesis using c4 by (rule closed_once_route [rotated])
      qed
    qed
  qed
qed

lemma closed_once_run:
  "closed_once c \<Longrightarrow> closed_once (snd (run c))"
proof (induction c rule: run.induct)
  case (1 c)
  show ?case
  proof (cases "client_running c")
    case False
    then show ?thesis using "1.prems" by (simp add: run.simps [of c])
  next
    case True
    obtain f c' where b: "run_body c = (f, c')" by (cases "run_body c")
    note i = closed_once_run_body [OF "1.prems" b]
    show ?thesis
    proof (cases f)
      case Continue
      with "1.IH" [OF True b [symmetric] Continue i] True b
      show ?thesis by (simp add: run.simps [of c])
    next
      case Return
      then show ?thesis using True b i by (simp add: run.simps [of c])
    next
      case (Raise e)
      then show ?thesis using True b i by (simp add: run.simps [of c])
    qed
  qed
qed

lemma closed_once_init: "closed_once (ClientThread_init cn srv ip port)"
  by (simp add: closed_once_def ClientThread_init_def close_calls_def)

lemma closed_once_funpow: "closed_once c \<Longrightarrow> closed_once ((shutdown_client ^^ n) c)"
  by (induction n) (simp_all add: closed_once_shutdown_client)

lemma shutdown_client_twice: "shutdown_client (shutdown_client c) = shutdown_client c"
  by (simp add: shutdown_client_def emit_def)

lemma shutdown_client_funpow:
  "(shutdown_client ^^ n) (shutdown_client c) = shutdown_client c"
  by (induction n) (simp_all add: shutdown_client_twice)

text \<open>
  Claim C10. \<open>shutdown_client\<close> is idempotent. The first call on a new handler sets
  \<open>client_running\<close> to \<open>False\<close> and closes the socket; after one call, any number of
  further calls change nothing; and over a lifetime made of any number of calls, a
  \<open>run\<close> on any input and any number of calls after it, the socket's \<open>close\<close> is
  called at most once (exactly once when \<open>shutdown_client\<close> alone is called).
\<close>

theorem shutdown_client_idempotent:
  "shutdown_client (ClientThread_init cn srv ip port)
     = \<lparr>conn = cn\<lparr>closed := True\<rparr>, client_running = False, tcp_server = srv,
        incoming_ip = ip, incoming_port = port, trace = [ConnClose]\<rparr>
   \<and> (shutdown_client ^^ n) (shutdown_client c) = shutdown_client c
   \<and> \<not> client_running (shutdown_client c)
   \<and> close_calls ((shutdown_client ^^ Suc n) (ClientThread_init cn srv ip port)) = 1
   \<and> close_calls ((shutdown_client ^^ n)
        (snd (run ((shutdown_client ^^ m) (ClientThread_init cn srv ip port))))) \<le> 1"
proof (intro conjI)
  show "shutdown_client (ClientThread_init cn srv ip port)
     = \<lparr>conn = cn\<lparr>closed := True\<rparr>, client_running = False, tcp_server = srv,
        incoming_ip = ip, incoming_port = port, trace = [ConnClose]\<rparr>"
    by (simp add: shutdown_client_def ClientThread_init_def emit_def)
  show "(shutdown_client ^^ n) (shutdown_client c) = shutdown_client c"
    by (rule shutdown_client_funpow)
  show "\<not> client_running (shutdown_client c)"
    by (simp add: shutdown_client_def emit_def)
  have "(shutdown_client ^^ Suc n) (ClientThread_init cn srv ip port)
        = shutdown_client (ClientThread_init cn srv ip port)"
    by (simp only: funpow_Suc_right o_apply shutdown_client_funpow)
  then show "close_calls ((shutdown_client ^^ Suc n) (ClientThread_init cn srv ip port)) = 1"
    by (simp add: shutdown_client_def ClientThread_init_def emit_def close_calls_def)
  have "closed_once ((shutdown_client ^^ n)
        (snd (run ((shutdown_client ^^ m) (ClientThread_init cn srv ip port)))))"
    by (intro closed_once_funpow closed_once_run closed_once_init)
  then show "close_calls ((shutdown_client ^^ n)
        (snd (run ((shutdown_client ^^ m) (ClientThread_init cn srv ip port))))) \<le> 1"
    by (simp add: closed_once_def split: if_splits)
qed

section \<open>Reading a frame\<close>

text \<open>
  What each reader returns when the bytes it needs are at the front of the first
  segment, and what the preamble loop returns for any segmentation.
\<close>

lemma set_incoming_simps [simp]:
  "incoming (conn (set_incoming segs c)) = segs"
  "closed (conn (set_incoming segs c)) = closed (conn c)"
  "send_error (conn (set_incoming segs c)) = send_error (conn c)"
  "client_running (set_incoming segs c) = client_running c"
  "tcp_server (set_incoming segs c) = tcp_server c"
  "incoming_ip (set_incoming segs c) = incoming_ip c"
  "incoming_port (set_incoming segs c) = incoming_port c"
  "trace (set_incoming segs c) = trace c"
  "set_incoming segs (set_incoming segs' c) = set_incoming segs c"
  by (simp_all add: set_incoming_def)

lemma set_incoming_same: "incoming (conn c) = segs \<Longrightarrow> set_incoming segs c = c"
  by (simp add: set_incoming_def)

lemma conn_recv_front:
  assumes "\<not> closed (conn c)" "incoming (conn c) = unread (xs @ ys) rest"
  shows "conn_recv (length xs) c = (Inr xs, set_incoming (unread ys rest) c)"
proof (cases "xs = []")
  case True
  then have "set_incoming (unread ys rest) c = c"
    using assms(2) by (simp add: set_incoming_same)
  moreover have "conn_recv 0 c = (Inr [], c)"
    using assms(1) by (auto simp: conn_recv_def set_incoming_def split: list.splits)
  ultimately show ?thesis using True by simp
next
  case False
  then have "incoming (conn c) = (xs @ ys) # rest" using assms(2) by (simp add: unread_def)
  then show ?thesis using assms(1) False
    by (simp add: conn_recv_def set_incoming_def unread_def)
qed

lemma validate_preamble_front:
  assumes "\<not> closed (conn c)" "incoming (conn c) = unread (Preamble @ ys) rest"
  shows "validate_preamble c = (True, set_incoming (unread ys rest) c)"
proof -
  have l: "length Preamble = 4" by (simp add: Preamble_def)
  have "conn_recv 4 c = (Inr Preamble, set_incoming (unread ys rest) c)"
    using conn_recv_front [OF assms] l by simp
  then have "validate_preamble_loop 4 [] c
             = (Inr Preamble, set_incoming (unread ys rest) c)"
    by (simp add: validate_preamble_loop.simps [of 4] validate_preamble_loop.simps [of 0] l
                  Preamble_def [symmetric])
       (simp add: Preamble_def)
  then show ?thesis by (simp add: validate_preamble_def l)
qed

lemma read_int32_front:
  assumes "\<not> closed (conn c)" "struct_pack_I n = Inr p"
    and "incoming (conn c) = unread (p @ ys) rest"
  shows "read_int32 c = (Some n, set_incoming (unread ys rest) c)"
proof -
  have "conn_recv 4 c = (Inr p, set_incoming (unread ys rest) c)"
    using conn_recv_front [OF assms(1,3)] struct_pack_length [OF assms(2)] by simp
  then show ?thesis using struct_unpack_pack [OF assms(2)] by (simp add: read_int32_def)
qed

lemma read_string_front:
  assumes "\<not> closed (conn c)" "utf8_encode d = Inr db" "struct_pack_I (length db) = Inr p"
    and "incoming (conn c) = unread (p @ db @ ys) rest"
  shows "read_string c = (Some d, set_incoming (unread ys rest) c)"
proof -
  let ?c1 = "set_incoming (unread (db @ ys) rest) c"
  have 1: "read_int32 c = (Some (length db), ?c1)"
    using read_int32_front [OF assms(1,3,4)] .
  have "conn_recv (length db) ?c1 = (Inr db, set_incoming (unread ys rest) ?c1)"
    by (rule conn_recv_front) (simp_all add: assms(1))
  then show ?thesis using 1 utf8_decode_encode [OF assms(2)]
    by (simp add: read_string_def)
qed

lemma recv_payload_front:
  "\<not> closed (conn c) \<Longrightarrow> incoming (conn c) = unread (pl @ ys) rest \<Longrightarrow>
   length data + length pl = n \<Longrightarrow>
   recv_payload n data c = (Inr (data @ pl), set_incoming (unread ys rest) c)"
proof (induction n data c arbitrary: pl rule: recv_payload.induct)
  case (1 n data c)
  show ?case
  proof (cases "length data < n")
    case False
    from False "1.prems"(3) have "pl = []" by (cases pl) auto
    then show ?thesis using False "1.prems"(2)
      by (simp add: recv_payload.simps [of n data] set_incoming_same)
  next
    case True
    define grab where "grab = (if n - length data > 1024 then 1024 else n - length data)"
    have g: "grab \<le> length pl" "0 < grab"
      using True "1.prems"(3) by (auto simp: grab_def)
    let ?xs = "take grab pl"
    let ?c1 = "set_incoming (unread (drop grab pl @ ys) rest) c"
    have td: "?xs @ drop grab pl @ ys = pl @ ys"
      by (simp add: append_assoc [symmetric] del: append_assoc)
    have "incoming (conn c) = unread (?xs @ (drop grab pl @ ys)) rest"
      unfolding td by (rule "1.prems"(2))
    from conn_recv_front [OF "1.prems"(1) this]
    have rc: "conn_recv grab c = (Inr ?xs, ?c1)" using g by simp
    have ne: "?xs \<noteq> []" using g by auto
    have "recv_payload n (data @ ?xs) ?c1
          = (Inr ((data @ ?xs) @ drop grab pl), set_incoming (unread ys rest) ?c1)"
      using "1.prems" g
      by (intro "1.IH" [OF True grab_def rc [symmetric] refl ne]) simp_all
    then show ?thesis using True rc ne
      by (simp add: recv_payload.simps [of n data] grab_def [symmetric])
  qed
qed

lemma run_body_read_frame:
  "run_body c =
     (case read_frame c of
        (BadPreamble, c1) \<Rightarrow> (Return, shutdown_client (emit (Print InvalidPreamble) c1))
      | (ReadRaised e, c1) \<Rightarrow> (Raise e, c1)
      | (FrameRead destination n data, c4) \<Rightarrow> route destination n data c4)"
  by (simp add: run_body_def read_frame_def
           split: prod.splits bool.splits option.splits sum.splits)

lemma only_read_refl: "only_read c c"
proof -
  have "c = c\<lparr>conn := (conn c)\<lparr>incoming := incoming (conn c)\<rparr>, trace := trace c @ map Print []\<rparr>"
    by simp
  then show ?thesis unfolding only_read_def by blast
qed

lemma only_read_trans:
  assumes "only_read a b" "only_read b c"
  shows "only_read a c"
proof -
  from assms(1) obtain s1 l1 where
    b: "b = a\<lparr>conn := (conn a)\<lparr>incoming := s1\<rparr>, trace := trace a @ map Print l1\<rparr>"
    unfolding only_read_def by blast
  from assms(2) obtain s2 l2 where
    c: "c = b\<lparr>conn := (conn b)\<lparr>incoming := s2\<rparr>, trace := trace b @ map Print l2\<rparr>"
    unfolding only_read_def by blast
  have "c = a\<lparr>conn := (conn a)\<lparr>incoming := s2\<rparr>, trace := trace a @ map Print (l1 @ l2)\<rparr>"
    unfolding c b by simp
  then show ?thesis unfolding only_read_def by blast
qed

lemma only_read_emit: "only_read c (emit (Print l) c)"
proof -
  have "emit (Print l) c
        = c\<lparr>conn := (conn c)\<lparr>incoming := incoming (conn c)\<rparr>, trace := trace c @ map Print [l]\<rparr>"
    by (simp add: emit_def)
  then show ?thesis unfolding only_read_def by blast
qed

lemma only_read_set_incoming: "only_read c (c\<lparr>conn := (conn c)\<lparr>incoming := segs\<rparr>\<rparr>)"
proof -
  have "c\<lparr>conn := (conn c)\<lparr>incoming := segs\<rparr>\<rparr>
        = c\<lparr>conn := (conn c)\<lparr>incoming := segs\<rparr>, trace := trace c @ map Print []\<rparr>"
    by simp
  then show ?thesis unfolding only_read_def by blast
qed

lemma only_read_conn_recv: "conn_recv n c = (r, c') \<Longrightarrow> only_read c c'"
  by (auto simp: conn_recv_def only_read_refl only_read_set_incoming
           split: if_splits list.splits)

lemma only_read_validate_preamble_loop:
  "validate_preamble_loop n data c = (r, c') \<Longrightarrow> only_read c c'"
proof (induction n data c rule: validate_preamble_loop.induct)
  case (1 n data c)
  show ?case
  proof (cases "n > 0")
    case False
    then show ?thesis using "1.prems"
      by (auto simp add: validate_preamble_loop.simps [of 0] only_read_refl)
  next
    case True
    obtain r1 c1 where rc: "conn_recv n c = (r1, c1)" by (cases "conn_recv n c")
    note p = only_read_conn_recv [OF rc]
    show ?thesis
    proof (cases r1)
      case (Inl e)
      then show ?thesis using "1.prems" True rc p
        by (auto simp add: validate_preamble_loop.simps [of n])
    next
      case (Inr raw)
      show ?thesis
      proof (cases "raw = []")
        case True
        then show ?thesis using "1.prems" \<open>n > 0\<close> rc p Inr
          by (auto simp add: validate_preamble_loop.simps [of n])
      next
        case False
        have "validate_preamble_loop (n - length raw) (data @ raw) c1 = (r, c')"
          using "1.prems" \<open>n > 0\<close> rc Inr False
          by (simp add: validate_preamble_loop.simps [of n])
        from "1.IH" [OF \<open>n > 0\<close> rc [symmetric] Inr False this] p
        show ?thesis by (rule only_read_trans [rotated])
      qed
    qed
  qed
qed

lemma only_read_validate_preamble: "validate_preamble c = (b, c') \<Longrightarrow> only_read c c'"
proof -
  assume a: "validate_preamble c = (b, c')"
  obtain r c1 where l: "validate_preamble_loop (length Preamble) [] c = (r, c1)"
    by (cases "validate_preamble_loop (length Preamble) [] c")
  note p = only_read_validate_preamble_loop [OF l]
  show ?thesis
  proof (cases r)
    case (Inl e)
    then have "c' = emit (Print (UnableToReadPreamble e)) c1"
      using a l by (simp add: validate_preamble_def)
    then show ?thesis using p only_read_emit only_read_trans by blast
  next
    case (Inr d)
    then have "c' = c1" using a l by (simp add: validate_preamble_def split: if_splits)
    then show ?thesis using p by simp
  qed
qed

lemma only_read_read_int32: "read_int32 c = (r, c') \<Longrightarrow> only_read c c'"
proof -
  assume a: "read_int32 c = (r, c')"
  obtain r1 c1 where l: "conn_recv 4 c = (r1, c1)" by (cases "conn_recv 4 c")
  note p = only_read_conn_recv [OF l]
  have "c' = c1 \<or> (\<exists>e. c' = emit (Print (UnableToReadInteger e)) c1)"
    using a l by (auto simp: read_int32_def split: sum.splits)
  then show ?thesis using p only_read_emit only_read_trans by blast
qed

lemma only_read_read_string: "read_string c = (r, c') \<Longrightarrow> only_read c c'"
proof -
  assume a: "read_string c = (r, c')"
  obtain r1 c1 where l: "read_int32 c = (r1, c1)" by (cases "read_int32 c")
  note p = only_read_read_int32 [OF l]
  show ?thesis
  proof (cases r1)
    case None
    then have "c' = emit (Print (UnableToReadString TypeError)) c1"
      using a l by (simp add: read_string_def)
    then show ?thesis using p only_read_emit only_read_trans by blast
  next
    case (Some n)
    obtain r2 c2 where l2: "conn_recv n c1 = (r2, c2)" by (cases "conn_recv n c1")
    note p2 = only_read_trans [OF p only_read_conn_recv [OF l2]]
    have "c' = c2 \<or> (\<exists>e. c' = emit (Print (UnableToReadString e)) c2)"
      using a l Some l2 by (auto simp: read_string_def split: sum.splits)
    then show ?thesis using p2 only_read_emit only_read_trans by blast
  qed
qed

lemma only_read_recv_payload:
  "recv_payload n data c = (r, c') \<Longrightarrow> only_read c c'"
proof (induction n data c rule: recv_payload.induct)
  case (1 n data c)
  show ?case
  proof (cases "length data < n")
    case False
    then show ?thesis using "1.prems"
      by (auto simp add: recv_payload.simps [of n data] only_read_refl)
  next
    case True
    define grab where "grab = (if n - length data > 1024 then 1024 else n - length data)"
    obtain r1 c1 where rc: "conn_recv grab c = (r1, c1)" by (cases "conn_recv grab c")
    note p = only_read_conn_recv [OF rc]
    show ?thesis
    proof (cases r1)
      case (Inl e)
      then show ?thesis using "1.prems" True rc p
        by (auto simp add: recv_payload.simps [of n data] grab_def [symmetric])
    next
      case (Inr packet)
      show ?thesis
      proof (cases "packet = []")
        case True
        then have "c' = emit (Print NoPackets) c1"
          using "1.prems" \<open>length data < n\<close> rc Inr
          by (auto simp add: recv_payload.simps [of n data] grab_def [symmetric])
        then show ?thesis using p only_read_emit only_read_trans by blast
      next
        case False
        have "recv_payload n (data @ packet) c1 = (r, c')"
          using "1.prems" \<open>length data < n\<close> rc Inr False
          by (simp add: recv_payload.simps [of n data] grab_def [symmetric])
        from "1.IH" [OF \<open>length data < n\<close> grab_def rc [symmetric] Inr False this] p
        show ?thesis by (rule only_read_trans [rotated])
      qed
    qed
  qed
qed

lemma only_read_read_frame: "read_frame c = (r, c') \<Longrightarrow> only_read c c'"
proof -
  assume a: "read_frame c = (r, c')"
  obtain b c1 where v: "validate_preamble c = (b, c1)" by (cases "validate_preamble c")
  note p1 = only_read_validate_preamble [OF v]
  show ?thesis
  proof (cases b)
    case False
    then show ?thesis using a v p1 by (simp add: read_frame_def)
  next
    case True
    obtain d c2 where rs: "read_string c1 = (d, c2)" by (cases "read_string c1")
    obtain z c3 where ri: "read_int32 c2 = (z, c3)" by (cases "read_int32 c2")
    note p3 = only_read_trans [OF only_read_trans [OF p1 only_read_read_string [OF rs]]
                only_read_read_int32 [OF ri]]
    show ?thesis
    proof (cases z)
      case None
      then show ?thesis using a v True rs ri p3 by (simp add: read_frame_def)
    next
      case (Some n)
      obtain r4 c4 where rp: "recv_payload n [] c3 = (r4, c4)"
        by (cases "recv_payload n [] c3")
      note p4 = only_read_trans [OF p3 only_read_recv_payload [OF rp]]
      have "c' = c4" using a v True rs ri Some rp
        by (auto simp: read_frame_def split: sum.splits)
      then show ?thesis using p4 by simp
    qed
  qed
qed

lemma only_read_fields:
  assumes "only_read c c'"
  shows "client_running c' = client_running c" "tcp_server c' = tcp_server c"
    "incoming_ip c' = incoming_ip c" "closed (conn c') = closed (conn c)"
    "send_error (conn c') = send_error (conn c)"
    "\<exists>ls. trace c' = trace c @ map Print ls"
  using assms unfolding only_read_def by auto

lemma read_frame_front:
  assumes "\<not> closed (conn c)" "serialize_message d (Message payload) = Inr body"
    and "incoming (conn c) = (Preamble @ body @ after) # rest"
  shows "read_frame c = (FrameRead (Some d) (length payload) payload,
                         set_incoming (unread after rest) c)"
proof -
  from assms(2) obtain db p q where db: "utf8_encode d = Inr db"
    and p: "struct_pack_I (length db) = Inr p"
    and q: "struct_pack_I (length payload) = Inr q"
    and body: "body = p @ db @ q @ payload"
    by (auto simp: serialize_message_def Let_def split: sum.splits)
  let ?c1 = "set_incoming (unread (body @ after) rest) c"
  let ?c2 = "set_incoming (unread (q @ payload @ after) rest) c"
  let ?c3 = "set_incoming (unread (payload @ after) rest) c"
  let ?c4 = "set_incoming (unread after rest) c"
  have "incoming (conn c) = unread (Preamble @ body @ after) rest"
    using assms(3) by (simp add: unread_def Preamble_def)
  from validate_preamble_front [OF assms(1) this]
  have 1: "validate_preamble c = (True, ?c1)" .
  have "read_string ?c1 = (Some d, set_incoming (unread (q @ payload @ after) rest) ?c1)"
    by (rule read_string_front [OF _ db p]) (simp_all add: assms(1) body)
  then have 2: "read_string ?c1 = (Some d, ?c2)" by simp
  have "read_int32 ?c2 = (Some (length payload), set_incoming (unread (payload @ after) rest) ?c2)"
    by (rule read_int32_front [OF _ q]) (simp_all add: assms(1))
  then have 3: "read_int32 ?c2 = (Some (length payload), ?c3)" by simp
  have "recv_payload (length payload) [] ?c3
        = (Inr ([] @ payload), set_incoming (unread after rest) ?c3)"
    by (rule recv_payload_front) (simp_all add: assms(1))
  then have 4: "recv_payload (length payload) [] ?c3 = (Inr payload, ?c4)" by simp
  show ?thesis by (simp add: read_frame_def 1 2 3 4)
qed

lemma run_routes:
  assumes "read_frame c = (FrameRead destination n payload, c4)"
  shows "run_body c = route destination n payload c4"
  using assms by (simp add: run_body_read_frame)

lemma struct_pack_I_small: "n < 2 ^ 32 \<Longrightarrow> \<exists>p. struct_pack_I n = Inr p"
  by (simp add: struct_pack_I_def)

lemma decode_fields_front:
  assumes "\<not> closed (conn c)" "serialize_message d (Message payload) = Inr body"
    and "incoming (conn c) = unread (body @ after) rest"
  shows "decode_fields c = (Some (d, payload), set_incoming (unread after rest) c)"
proof -
  from assms(2) obtain db p q where db: "utf8_encode d = Inr db"
    and p: "struct_pack_I (length db) = Inr p"
    and q: "struct_pack_I (length payload) = Inr q"
    and body: "body = p @ db @ q @ payload"
    by (auto simp: serialize_message_def Let_def split: sum.splits)
  let ?c2 = "set_incoming (unread (q @ payload @ after) rest) c"
  let ?c3 = "set_incoming (unread (payload @ after) rest) c"
  let ?c4 = "set_incoming (unread after rest) c"
  have 2: "read_string c = (Some d, ?c2)"
    by (rule read_string_front [OF assms(1) db p]) (simp add: assms(3) body)
  have "read_int32 ?c2 = (Some (length payload), set_incoming (unread (payload @ after) rest) ?c2)"
    by (rule read_int32_front [OF _ q]) (simp_all add: assms(1))
  then have 3: "read_int32 ?c2 = (Some (length payload), ?c3)" by simp
  have "recv_payload (length payload) [] ?c3
        = (Inr ([] @ payload), set_incoming (unread after rest) ?c3)"
    by (rule recv_payload_front) (simp_all add: assms(1))
  then have 4: "recv_payload (length payload) [] ?c3 = (Inr payload, ?c4)" by simp
  show ?thesis by (simp add: decode_fields_def 2 3 4)
qed

lemma run_Return: "client_running c \<Longrightarrow> run_body c = (Return, c') \<Longrightarrow> run c = (None, c')"
  by (simp add: run.simps [of c])

lemma run_Raise: "client_running c \<Longrightarrow> run_body c = (Raise e, c') \<Longrightarrow> run c = (Some e, c')"
  by (simp add: run.simps [of c])

lemma send_and_reply_raises:
  assumes "\<not> closed (conn c)"
    and "ros_communicator payload = Inl e
       \<or> (\<exists>response. ros_communicator payload = Inr (Some response)
            \<and> (serialize_message destination response = Inl e
               \<or> (\<exists>m t. serialize_message destination response = Inr m
                     \<and> send_error (conn c) = Some t \<and> e = SocketError t)))"
  shows "send_and_reply destination ros_communicator payload c
         = (Some e, emit (EndpointSend destination payload) c)"
  using assms by (auto simp: send_and_reply_def Let_def conn_send_def)

lemma validate_preamble_loop_segments:
  "\<not> closed (conn c) \<Longrightarrow> [] \<notin> set (incoming (conn c)) \<Longrightarrow>
   n \<le> length (concat (incoming (conn c))) \<Longrightarrow>
   \<exists>segs'. validate_preamble_loop n data c
              = (Inr (data @ take n (concat (incoming (conn c)))), set_incoming segs' c)
          \<and> concat segs' = drop n (concat (incoming (conn c)))"
proof (induction n data c rule: validate_preamble_loop.induct)
  case (1 n data c)
  show ?case
  proof (cases "n > 0")
    case False
    then have "validate_preamble_loop n data c = (Inr data, set_incoming (incoming (conn c)) c)"
      by (subst validate_preamble_loop.simps) (simp add: set_incoming_same)
    then show ?thesis using False by auto
  next
    case True
    then obtain seg segs where i: "incoming (conn c) = seg # segs"
      using "1.prems"(3) by (cases "incoming (conn c)") auto
    have seg: "seg \<noteq> []" using "1.prems"(2) i by auto
    show ?thesis
    proof (cases "length seg \<le> n")
      case le: True
      let ?c1 = "set_incoming segs c"
      have rc: "conn_recv n c = (Inr seg, ?c1)"
        using "1.prems"(1) i seg le by (simp add: conn_recv_def set_incoming_def)
      have "\<exists>segs'. validate_preamble_loop (n - length seg) (data @ seg) ?c1
              = (Inr ((data @ seg) @ take (n - length seg) (concat (incoming (conn ?c1)))),
                 set_incoming segs' ?c1)
            \<and> concat segs' = drop (n - length seg) (concat (incoming (conn ?c1)))"
        using "1.prems" i le
        by (intro "1.IH" [OF True rc [symmetric] refl seg]) auto
      then obtain segs' where
        v: "validate_preamble_loop (n - length seg) (data @ seg) ?c1
              = (Inr (data @ seg @ take (n - length seg) (concat segs)), set_incoming segs' c)"
        and s: "concat segs' = drop (n - length seg) (concat segs)"
        by auto
      have "validate_preamble_loop n data c
              = (Inr (data @ seg @ take (n - length seg) (concat segs)), set_incoming segs' c)"
        using True rc seg v by (simp add: validate_preamble_loop.simps [of n])
      then show ?thesis using s i le by auto
    next
      case gt: False
      let ?c1 = "set_incoming (drop n seg # segs) c"
      have rc: "conn_recv n c = (Inr (take n seg), ?c1)"
        using "1.prems"(1) i seg gt by (simp add: conn_recv_def set_incoming_def)
      have ne: "take n seg \<noteq> []" using True seg by simp
      have "validate_preamble_loop (n - length (take n seg)) (data @ take n seg) ?c1
            = (Inr (data @ take n seg), ?c1)"
        using gt by (simp add: validate_preamble_loop.simps [of 0])
      then have "validate_preamble_loop n data c = (Inr (data @ take n seg), ?c1)"
        using True rc ne by (simp add: validate_preamble_loop.simps [of n])
      then show ?thesis using i gt by auto
    qed
  qed
qed

lemmas handler_eval =
  run.simps run_body_def validate_preamble_def validate_preamble_loop.simps
  read_int32_def read_string_def recv_payload.simps conn_recv_def conn_send_def
  route_def syscommand_branch_def handshake_branch_def dispatch_def send_and_reply_def
  unknown_destination_def shutdown_client_def emit_def ClientThread_init_def
  struct_unpack_I_def struct_pack_I_def utf8_decode.simps utf8_encode_cp_def
  is_continuation_def serialize_message_def Preamble_def str_of_def Let_def
  example_client_def example_server_def

lemmas example_eval =
  example_client_def example_server_def ClientThread_init_def Preamble_def
  serialize_message_def utf8_encode_cp_def struct_pack_I_def str_of_def

section \<open>The claims about the frame codec\<close>

text \<open>
  Claim C4. Round trip. A destination that UTF-8 encodes to fewer than \<open>2^32\<close> bytes
  and a payload of fewer than \<open>2^32\<close> bytes (the frame invariant of the data model) are
  serialized by \<open>serialize_message\<close> to the destination length, the destination bytes,
  the payload length and the payload, both lengths as four bytes least significant first
  and with no preamble; and the field readers of the handler (\<open>read_string\<close>,
  \<open>read_int32\<close>, the payload loop), reading that buffer from an open connection, return
  the same destination and the same payload and leave what follows unread.
\<close>

theorem outbound_round_trip:
  assumes "utf8_encode destination = Inr dest_bytes"
    and "length dest_bytes < 2 ^ 32" and "length payload < 2 ^ 32"
    and "\<not> closed (conn c)"
  shows "\<exists>p q. struct_pack_I (length dest_bytes) = Inr p
           \<and> struct_pack_I (length payload) = Inr q
           \<and> serialize_message destination (Message payload)
               = Inr (p @ dest_bytes @ q @ payload)
           \<and> decode_fields (set_incoming ((p @ dest_bytes @ q @ payload) # rest) c)
               = (Some (destination, payload), set_incoming rest c)"
proof -
  obtain p where p: "struct_pack_I (length dest_bytes) = Inr p"
    using struct_pack_I_small [OF assms(2)] by blast
  obtain q where q: "struct_pack_I (length payload) = Inr q"
    using struct_pack_I_small [OF assms(3)] by blast
  let ?frame = "p @ dest_bytes @ q @ payload"
  have s: "serialize_message destination (Message payload) = Inr ?frame"
    by (simp add: serialize_message_def assms(1) p q)
  have ne: "?frame \<noteq> []" using struct_pack_length [OF p] by auto
  have "decode_fields (set_incoming (?frame # rest) c)
        = (Some (destination, payload),
           set_incoming (unread [] rest) (set_incoming (?frame # rest) c))"
    using ne by (intro decode_fields_front [OF _ s]) (simp_all add: assms(4) unread_def)
  then show ?thesis using p q s by (simp add: unread_def)
qed

theorem outbound_round_trip_witness:
  "\<exists>p q. struct_pack_I (length [0x2F, 0x61 :: byte]) = Inr p
     \<and> struct_pack_I (length [1, 2, 3 :: byte]) = Inr q
     \<and> serialize_message [0x2F, 0x61] (Message [1, 2, 3])
         = Inr (p @ [0x2F, 0x61] @ q @ [1, 2, 3])
     \<and> decode_fields (set_incoming ((p @ [0x2F, 0x61] @ q @ [1, 2, 3]) # [])
          (example_client []))
         = (Some ([0x2F, 0x61], [1, 2, 3]), set_incoming [] (example_client []))"
  by (rule outbound_round_trip)
     (simp_all add: utf8_encode_cp_def example_client_def ClientThread_init_def)

text \<open>
  Claim C1. Chunked reads. The claim does not hold of the code: \<open>read_int32\<close> and
  \<open>read_string\<close> call \<open>recv\<close> once each and do not accumulate. The frame for
  destination \<open>a\<close> with the payload \<open>2A\<close>, delivered in one read, is dispatched to
  the endpoint \<open>a\<close>; the same frame delivered one byte per read is not: both length
  prefixes fail to unpack, the destination is lost, and \<open>run\<close> ends with a
  \<open>TypeError\<close> and no dispatch.
\<close>

theorem partial_reads_of_length_prefix_diverge:
  "fst (run (example_client
         [[0xFE, 0xED, 0xF0, 0x0D, 1, 0, 0, 0, 0x61, 1, 0, 0, 0, 0x2A]])) = None
   \<and> trace (snd (run (example_client
         [[0xFE, 0xED, 0xF0, 0x0D, 1, 0, 0, 0, 0x61, 1, 0, 0, 0, 0x2A]])))
       = [EndpointSend (str_of ''a'') [0x2A],
          Print (UnableToReadPreamble ConnectionClosed), Print InvalidPreamble, ConnClose]
   \<and> fst (run (example_client
         [[0xFE], [0xED], [0xF0], [0x0D], [1], [0], [0], [0], [0x61],
          [1], [0], [0], [0], [0x2A]])) = Some TypeError
   \<and> trace (snd (run (example_client
         [[0xFE], [0xED], [0xF0], [0x0D], [1], [0], [0], [0], [0x61],
          [1], [0], [0], [0], [0x2A]])))
       = [Print (UnableToReadInteger StructError), Print (UnableToReadString TypeError),
          Print (UnableToReadInteger StructError)]"
  by (simp add: handler_eval)

text \<open>
  Claim C2. Short payload. The claim does not hold of the code: the guard after the
  payload loop only tests for an empty payload. A frame for destination \<open>a\<close> that
  declares ten payload bytes and delivers five before the stream ends is dispatched: the
  endpoint's \<open>send\<close> is called with the five bytes.
\<close>

theorem truncated_payload_dispatched:
  "fst (run (example_client
         [[0xFE, 0xED, 0xF0, 0x0D, 1, 0, 0, 0, 0x61, 10, 0, 0, 0, 1, 2, 3, 4, 5]])) = None
   \<and> trace (snd (run (example_client
         [[0xFE, 0xED, 0xF0, 0x0D, 1, 0, 0, 0, 0x61, 10, 0, 0, 0, 1, 2, 3, 4, 5]])))
       = [Print NoPackets, EndpointSend (str_of ''a'') [1, 2, 3, 4, 5],
          Print (UnableToReadPreamble ConnectionClosed), Print InvalidPreamble, ConnClose]"
  by (simp add: handler_eval)

section \<open>The claims about the connection handler\<close>

text \<open>
  Claim C5. Preamble rejection. When the first four bytes of the stream, in whatever
  non-empty segments they arrive, are not \<open>FE ED F0 0D\<close>, \<open>run\<close> returns after
  printing and closing the socket: exactly those four bytes have been received, and no
  endpoint, handshake or system command has been called.
\<close>

theorem invalid_preamble_closes:
  assumes "client_running c" "\<not> closed (conn c)"
    and "[] \<notin> set (incoming (conn c))"
    and "4 \<le> length (concat (incoming (conn c)))"
    and "take 4 (concat (incoming (conn c))) \<noteq> Preamble"
  shows "fst (run c) = None
       \<and> trace (snd (run c)) = trace c @ [Print InvalidPreamble, ConnClose]
       \<and> closed (conn (snd (run c)))
       \<and> \<not> client_running (snd (run c))
       \<and> concat (incoming (conn (snd (run c)))) = drop 4 (concat (incoming (conn c)))"
proof -
  have l: "length Preamble = 4" by (simp add: Preamble_def)
  obtain segs' where
    v: "validate_preamble_loop 4 [] c
          = (Inr ([] @ take 4 (concat (incoming (conn c)))), set_incoming segs' c)"
    and s: "concat segs' = drop 4 (concat (incoming (conn c)))"
    using validate_preamble_loop_segments [OF assms(2,3,4), of "[]"] by blast
  let ?c1 = "set_incoming segs' c"
  have "validate_preamble c = (False, ?c1)"
    using v assms(5) by (simp add: validate_preamble_def l)
  then have "run_body c = (Return, shutdown_client (emit (Print InvalidPreamble) ?c1))"
    by (simp add: run_body_def)
  then have "run c = (None, shutdown_client (emit (Print InvalidPreamble) ?c1))"
    by (rule run_Return [OF assms(1)])
  then show ?thesis using assms(1) s
    by (simp add: shutdown_client_def emit_def set_incoming_def)
qed

theorem invalid_preamble_closes_witness:
  "fst (run (example_client [[0, 1], [2, 3, 4]])) = None
   \<and> trace (snd (run (example_client [[0, 1], [2, 3, 4]])))
       = [Print InvalidPreamble, ConnClose]
   \<and> closed (conn (snd (run (example_client [[0, 1], [2, 3, 4]]))))
   \<and> concat (incoming (conn (snd (run (example_client [[0, 1], [2, 3, 4]]))))) = [4]"
  using invalid_preamble_closes [of "example_client [[0, 1], [2, 3, 4]]"]
  by (simp add: example_client_def ClientThread_init_def Preamble_def)

text \<open>
  Claim C3, as amended. Unknown destination. Whenever a pass of the loop of \<open>run\<close> has
  read a frame with a non-empty payload whose destination is neither reserved nor a key
  of the registry, the handler closes the connection, passes to \<open>send_unity_error\<close>
  the message that holds the requested name and the rendering of the registry's keys,
  and then raises \<open>TopicOrServiceNameDoesNotExistError\<close> with that message: the
  exception leaves \<open>run\<close>. Since the pass began the handler has only printed; no
  endpoint is called and nothing after the frame is read.
\<close>

theorem unknown_destination_raises:
  assumes "client_running c"
    and "read_frame c = (FrameRead (Some destination) n payload, c4)" "payload \<noteq> []"
    and "destination \<noteq> str_of ''__syscommand''" "destination \<noteq> str_of ''__handshake''"
    and "destination \<notin> set (map fst (source_destination_dict (tcp_server c)))"
    and "ks = map fst (source_destination_dict (tcp_server c))"
  shows "fst (run c)
           = Some (TopicOrServiceNameDoesNotExistError (error_msg (Some destination) ks))
       \<and> (\<exists>ls. trace (snd (run c))
                 = trace c @ map Print ls
                   @ [ConnClose, SendUnityError (error_msg (Some destination) ks)])
       \<and> closed (conn (snd (run c)))
       \<and> \<not> client_running (snd (run c))
       \<and> incoming (conn (snd (run c))) = incoming (conn c4)
       \<and> (\<exists>pre mid post.
             error_msg (Some destination) ks = pre @ destination @ mid @ str_keys ks @ post)"
proof -
  note f = only_read_fields [OF only_read_read_frame [OF assms(2)]]
  obtain ls where ls: "trace c4 = trace c @ map Print ls" using f(6) by blast
  let ?msg = "error_msg (Some destination) ks"
  let ?c' = "emit (SendUnityError ?msg) (shutdown_client c4)"
  have m: "map_of (source_destination_dict (tcp_server c4)) destination = None"
    using assms(6) f(2) by (simp add: map_of_eq_None_iff)
  have "run_body c = route (Some destination) n payload c4"
    by (rule run_routes [OF assms(2)])
  also have "\<dots> = (Raise (TopicOrServiceNameDoesNotExistError ?msg), ?c')"
    using assms(3,4,5,7) m f(2) by (simp add: route_def unknown_destination_def Let_def)
  finally have r: "run c = (Some (TopicOrServiceNameDoesNotExistError ?msg), ?c')"
    by (rule run_Raise [OF assms(1)])
  have "?msg = (str_of ''Topic/service destination '' @ str_of [CHR 0x27]) @ destination
               @ (str_of [CHR 0x27] @ str_of '' is not defined! Known topics are: '')
               @ str_keys ks @ str_of '' ''"
    by (simp add: error_msg_def format_destination_def)
  then have c: "\<exists>pre mid post. ?msg = pre @ destination @ mid @ str_keys ks @ post"
    by blast
  have t: "trace (snd (run c)) = trace c @ map Print ls @ [ConnClose, SendUnityError ?msg]"
    using r assms(1) f(1) ls by (simp add: shutdown_client_def emit_def)
  have "fst (run c) = Some (TopicOrServiceNameDoesNotExistError ?msg)"
    "closed (conn (snd (run c)))" "\<not> client_running (snd (run c))"
    "incoming (conn (snd (run c))) = incoming (conn c4)"
    using r assms(1) f(1) by (simp_all add: shutdown_client_def emit_def)
  then show ?thesis using t c by blast
qed

theorem unknown_destination_raises_witness:
  "fst (run (example_client [[0xFE, 0xED, 0xF0, 0x0D, 1, 0, 0, 0, 0x63, 1, 0, 0, 0, 1]]))
     = Some (TopicOrServiceNameDoesNotExistError
               (error_msg (Some (str_of ''c'')) [str_of ''a'', str_of ''b'']))
   \<and> (\<exists>ls. trace (snd (run (example_client
                [[0xFE, 0xED, 0xF0, 0x0D, 1, 0, 0, 0, 0x63, 1, 0, 0, 0, 1]])))
            = map Print ls
              @ [ConnClose,
                 SendUnityError (error_msg (Some (str_of ''c'')) [str_of ''a'', str_of ''b''])])
   \<and> closed (conn (snd (run (example_client
         [[0xFE, 0xED, 0xF0, 0x0D, 1, 0, 0, 0, 0x63, 1, 0, 0, 0, 1]]))))"
proof -
  let ?c = "example_client [[0xFE, 0xED, 0xF0, 0x0D, 1, 0, 0, 0, 0x63, 1, 0, 0, 0, 1]]"
  have rf: "read_frame ?c = (FrameRead (Some (str_of ''c'')) (length [1 :: byte]) [1],
                             set_incoming (unread [] []) ?c)"
    by (rule read_frame_front [of ?c "str_of ''c''" "[1]" "[1, 0, 0, 0, 0x63, 1, 0, 0, 0, 1]"])
       (simp_all add: example_eval)
  have ks: "[str_of ''a'', str_of ''b''] = map fst (source_destination_dict (tcp_server ?c))"
    by (simp add: example_eval)
  have t: "trace ?c = []" by (simp add: example_eval)
  from unknown_destination_raises [OF _ rf _ _ _ _ ks]
  show ?thesis unfolding t by (simp add: example_eval)
qed

text \<open>
  The claim as it was stated fails on the registry \<open>{a, b}\<close> and a frame for \<open>c\<close>:
  the failure is propagated as a raised exception.
\<close>

theorem unknown_destination_counterexample:
  "fst (run (example_client
         [[0xFE, 0xED, 0xF0, 0x0D, 1, 0, 0, 0, 0x63, 1, 0, 0, 0, 1]]))
     = Some (TopicOrServiceNameDoesNotExistError
               (error_msg (Some (str_of ''c'')) [str_of ''a'', str_of ''b'']))"
  by (simp add: handler_eval error_msg_def format_destination_def str_keys_def)

text \<open>
  Claim C6. Endpoint exceptions. Whenever a pass of the loop of \<open>run\<close> has read a frame
  with a non-empty payload for a registered destination, an exception raised by the
  endpoint's \<open>send\<close>, by the serialization of its response or by the write of the
  reply is caught: \<open>run\<close> prints it, closes the connection and returns without
  raising. The endpoint has been called once, no reply has been written and nothing
  after the frame is read.
\<close>

theorem endpoint_exception_caught:
  assumes "client_running c" "\<not> closed (conn c)"
    and "read_frame c = (FrameRead (Some destination) n payload, c4)" "payload \<noteq> []"
    and "destination \<noteq> str_of ''__syscommand''" "destination \<noteq> str_of ''__handshake''"
    and "map_of (source_destination_dict (tcp_server c)) destination = Some ros_communicator"
    and "ros_communicator payload = Inl e
       \<or> (\<exists>response. ros_communicator payload = Inr (Some response)
            \<and> (serialize_message destination response = Inl e
               \<or> (\<exists>m t. serialize_message destination response = Inr m
                     \<and> send_error (conn c) = Some t \<and> e = SocketError t)))"
  shows "fst (run c) = None
       \<and> (\<exists>ls. trace (snd (run c))
                 = trace c @ map Print ls
                   @ [EndpointSend destination payload, Print (ExceptionRaised e), ConnClose])
       \<and> closed (conn (snd (run c)))
       \<and> \<not> client_running (snd (run c))
       \<and> incoming (conn (snd (run c))) = incoming (conn c4)"
proof -
  note f = only_read_fields [OF only_read_read_frame [OF assms(3)]]
  obtain ls where ls: "trace c4 = trace c @ map Print ls" using f(6) by blast
  let ?c5 = "emit (EndpointSend destination payload) c4"
  let ?c' = "shutdown_client (emit (Print (ExceptionRaised e)) ?c5)"
  have s: "send_and_reply destination ros_communicator payload c4 = (Some e, ?c5)"
    by (rule send_and_reply_raises) (use assms(2,8) f(4,5) in simp_all)
  have "run_body c = route (Some destination) n payload c4"
    by (rule run_routes [OF assms(3)])
  also have "\<dots> = (Return, ?c')"
    using assms(4,5,6,7) s f(2) by (simp add: route_def dispatch_def)
  finally have r: "run c = (None, ?c')"
    by (rule run_Return [OF assms(1)])
  have t: "trace (snd (run c)) = trace c @ map Print ls
             @ [EndpointSend destination payload, Print (ExceptionRaised e), ConnClose]"
    using r assms(1) f(1) ls by (simp add: shutdown_client_def emit_def)
  have "fst (run c) = None"
    "closed (conn (snd (run c)))" "\<not> client_running (snd (run c))"
    "incoming (conn (snd (run c))) = incoming (conn c4)"
    using r assms(1) f(1) by (simp_all add: shutdown_client_def emit_def)
  then show ?thesis using t by blast
qed

theorem endpoint_exception_caught_witness:
  "fst (run (example_client [[0xFE, 0xED, 0xF0, 0x0D, 1, 0, 0, 0, 0x62, 1, 0, 0, 0, 9]]))
     = None
   \<and> (\<exists>ls. trace (snd (run (example_client
                [[0xFE, 0xED, 0xF0, 0x0D, 1, 0, 0, 0, 0x62, 1, 0, 0, 0, 9]])))
            = map Print ls
              @ [EndpointSend (str_of ''b'') [9],
                 Print (ExceptionRaised (CollaboratorError (str_of ''boom''))), ConnClose])
   \<and> closed (conn (snd (run (example_client
         [[0xFE, 0xED, 0xF0, 0x0D, 1, 0, 0, 0, 0x62, 1, 0, 0, 0, 9]]))))"
proof -
  let ?c = "example_client [[0xFE, 0xED, 0xF0, 0x0D, 1, 0, 0, 0, 0x62, 1, 0, 0, 0, 9]]"
  let ?ep = "(\<lambda>data. Inl (CollaboratorError (str_of ''boom''))) :: endpoint"
  have rf: "read_frame ?c = (FrameRead (Some (str_of ''b'')) (length [9 :: byte]) [9],
                             set_incoming (unread [] []) ?c)"
    by (rule read_frame_front [of ?c "str_of ''b''" "[9]" "[1, 0, 0, 0, 0x62, 1, 0, 0, 0, 9]"])
       (simp_all add: example_eval)
  have m: "map_of (source_destination_dict (tcp_server ?c)) (str_of ''b'') = Some ?ep"
    by (simp add: example_eval)
  have t: "trace ?c = []" by (simp add: example_eval)
  from endpoint_exception_caught
         [OF _ _ rf _ _ _ m, of "CollaboratorError (str_of ''boom'')"]
  show ?thesis unfolding t by (simp add: example_eval)
qed

text \<open>
  Claim C8, as amended. Handshake. Whenever a pass of the loop of \<open>run\<close> has read a
  frame addressed to \<open>__handshake\<close> with a non-empty payload, nothing after the frame
  is ever read on the connection, whatever the handshake does; and when the handshake
  returns a response, the response serializes and the write succeeds, the response is
  written to the same connection in the outbound format under the name
  \<open>__handshake\<close>, the connection is closed after the write and \<open>run\<close> returns.
\<close>

theorem handshake_single_shot:
  assumes "client_running c" "\<not> closed (conn c)"
    and "read_frame c = (FrameRead (Some (str_of ''__handshake'')) n payload, c4)"
    and "payload \<noteq> []"
  shows "incoming (conn (snd (run c))) = incoming (conn c4)
       \<and> (handshake (tcp_server c) (incoming_ip c) payload = Inr response
            \<and> serialize_message (str_of ''__handshake'') response = Inr response_message
            \<and> send_error (conn c) = None
          \<longrightarrow> fst (run c) = None
              \<and> (\<exists>ls. trace (snd (run c))
                        = trace c @ map Print ls
                          @ [Handshake (incoming_ip c) payload, ConnSend response_message,
                             ConnClose])
              \<and> closed (conn (snd (run c)))
              \<and> \<not> client_running (snd (run c)))"
proof -
  note f = only_read_fields [OF only_read_read_frame [OF assms(3)]]
  obtain ls where ls: "trace c4 = trace c @ map Print ls" using f(6) by blast
  have ns: "str_of ''__handshake'' \<noteq> str_of ''__syscommand''"
    by (simp add: str_of_def)
  have rb: "run_body c = handshake_branch payload c4"
    using run_routes [OF assms(3)] assms(4) ns by (simp add: route_def)
  obtain fl c' where hb: "handshake_branch payload c4 = (fl, c')"
    by (cases "handshake_branch payload c4")
  have i: "incoming (conn c') = incoming (conn c4)"
    using hb
    by (auto simp: handshake_branch_def Let_def conn_send_def shutdown_client_def emit_def
             split: sum.splits option.splits if_splits)
  have nc: "fl \<noteq> Continue"
    using hb
    by (auto simp: handshake_branch_def Let_def split: sum.splits option.splits prod.splits)
  have r: "snd (run c) = c'"
    using assms(1) rb hb nc by (cases fl) (simp_all add: run.simps [of c])
  have 1: "incoming (conn (snd (run c))) = incoming (conn c4)"
    using r i by simp
  have 2: "fst (run c) = None
       \<and> (\<exists>ls. trace (snd (run c))
                 = trace c @ map Print ls
                   @ [Handshake (incoming_ip c) payload, ConnSend response_message, ConnClose])
       \<and> closed (conn (snd (run c)))
       \<and> \<not> client_running (snd (run c))"
    if h: "handshake (tcp_server c) (incoming_ip c) payload = Inr response"
      "serialize_message (str_of ''__handshake'') response = Inr response_message"
      "send_error (conn c) = None"
  proof -
    let ?c' = "shutdown_client (emit (ConnSend response_message)
                 (emit (Handshake (incoming_ip c) payload) c4))"
    have "handshake_branch payload c4 = (Return, ?c')"
      using h assms(2) f(2,3,4,5) by (simp add: handshake_branch_def Let_def conn_send_def)
    with rb have rr: "run c = (None, ?c')" using run_Return [OF assms(1)] by simp
    have t: "trace (snd (run c)) = trace c @ map Print ls
               @ [Handshake (incoming_ip c) payload, ConnSend response_message, ConnClose]"
      using rr assms(1) f(1) ls by (simp add: shutdown_client_def emit_def)
    have "fst (run c) = None" "closed (conn (snd (run c)))" "\<not> client_running (snd (run c))"
      using rr assms(1) f(1) by (simp_all add: shutdown_client_def emit_def)
    then show ?thesis using t by blast
  qed
  show ?thesis using 1 2 by blast
qed

theorem handshake_single_shot_witness:
  "incoming (conn (snd (run (example_client
      [[0xFE, 0xED, 0xF0, 0x0D, 11, 0, 0, 0,
        0x5F, 0x5F, 0x68, 0x61, 0x6E, 0x64, 0x73, 0x68, 0x61, 0x6B, 0x65,
        1, 0, 0, 0, 5],
       [0xFE, 0xED, 0xF0, 0x0D]])))) = [[0xFE, 0xED, 0xF0, 0x0D]]
   \<and> fst (run (example_client
      [[0xFE, 0xED, 0xF0, 0x0D, 11, 0, 0, 0,
        0x5F, 0x5F, 0x68, 0x61, 0x6E, 0x64, 0x73, 0x68, 0x61, 0x6B, 0x65,
        1, 0, 0, 0, 5],
       [0xFE, 0xED, 0xF0, 0x0D]])) = None
   \<and> (\<exists>ls. trace (snd (run (example_client
      [[0xFE, 0xED, 0xF0, 0x0D, 11, 0, 0, 0,
        0x5F, 0x5F, 0x68, 0x61, 0x6E, 0x64, 0x73, 0x68, 0x61, 0x6B, 0x65,
        1, 0, 0, 0, 5],
       [0xFE, 0xED, 0xF0, 0x0D]])))
     = map Print ls
       @ [Handshake (str_of ''10.0.0.2'') [5],
          ConnSend [11, 0, 0, 0, 0x5F, 0x5F, 0x68, 0x61, 0x6E, 0x64, 0x73, 0x68, 0x61, 0x6B, 0x65,
                    1, 0, 0, 0, 7],
          ConnClose])"
proof -
  let ?c = "example_client
      [[0xFE, 0xED, 0xF0, 0x0D, 11, 0, 0, 0,
        0x5F, 0x5F, 0x68, 0x61, 0x6E, 0x64, 0x73, 0x68, 0x61, 0x6B, 0x65,
        1, 0, 0, 0, 5],
       [0xFE, 0xED, 0xF0, 0x0D]]"
  let ?m = "[11, 0, 0, 0, 0x5F, 0x5F, 0x68, 0x61, 0x6E, 0x64, 0x73, 0x68, 0x61, 0x6B, 0x65,
             1, 0, 0, 0, 7] :: bytes"
  have rf: "read_frame ?c = (FrameRead (Some (str_of ''__handshake'')) (length [5 :: byte]) [5],
                             set_incoming (unread [] [[0xFE, 0xED, 0xF0, 0x0D]]) ?c)"
    by (rule read_frame_front
          [of ?c "str_of ''__handshake''" "[5]"
              "[11, 0, 0, 0, 0x5F, 0x5F, 0x68, 0x61, 0x6E, 0x64, 0x73, 0x68, 0x61, 0x6B, 0x65,
                1, 0, 0, 0, 5]"])
       (simp_all add: example_eval)
  have h: "handshake (tcp_server ?c) (incoming_ip ?c) [5] = Inr (Message [7])
           \<and> serialize_message (str_of ''__handshake'') (Message [7]) = Inr ?m
           \<and> send_error (conn ?c) = None"
    by (simp add: example_eval)
  have t: "trace ?c = []" "incoming_ip ?c = str_of ''10.0.0.2''" by (simp_all add: example_eval)
  have 1: "client_running ?c" "\<not> closed (conn ?c)" by (simp_all add: example_eval)
  have ne: "[5 :: byte] \<noteq> []" by simp
  note w = handshake_single_shot
             [OF 1 rf ne, where response = "Message [7]" and response_message = ?m]
  have a: "incoming (conn (snd (run ?c))) = [[0xFE, 0xED, 0xF0, 0x0D]]"
    using w [THEN conjunct1] by (simp add: unread_def)
  from w [THEN conjunct2, rule_format, OF h] a
  show ?thesis unfolding t by simp
qed

text \<open>
  The claim as it was stated fails twice. A handshake frame with an empty payload is
  closed by the empty-payload guard: the handshake is not called and no response is
  written. And when the handshake raises, the exception leaves \<open>run\<close> and the handler
  has not closed the connection.
\<close>

theorem handshake_counterexample:
  "trace (snd (run (example_client
         [[0xFE, 0xED, 0xF0, 0x0D, 11, 0, 0, 0,
           0x5F, 0x5F, 0x68, 0x61, 0x6E, 0x64, 0x73, 0x68, 0x61, 0x6B, 0x65,
           0, 0, 0, 0]])))
     = [Print (NoData 0), ConnClose]
   \<and> fst (run (example_client
         [[0xFE, 0xED, 0xF0, 0x0D, 11, 0, 0, 0,
           0x5F, 0x5F, 0x68, 0x61, 0x6E, 0x64, 0x73, 0x68, 0x61, 0x6B, 0x65,
           1, 0, 0, 0, 0]]))
     = Some (CollaboratorError (str_of ''refused''))
   \<and> trace (snd (run (example_client
         [[0xFE, 0xED, 0xF0, 0x0D, 11, 0, 0, 0,
           0x5F, 0x5F, 0x68, 0x61, 0x6E, 0x64, 0x73, 0x68, 0x61, 0x6B, 0x65,
           1, 0, 0, 0, 0]])))
     = [Handshake (str_of ''10.0.0.2'') [0]]
   \<and> closed (conn (snd (run (example_client
         [[0xFE, 0xED, 0xF0, 0x0D, 11, 0, 0, 0,
           0x5F, 0x5F, 0x68, 0x61, 0x6E, 0x64, 0x73, 0x68, 0x61, 0x6B, 0x65,
           1, 0, 0, 0, 0]])))) = False"
  by (simp add: handler_eval)

section \<open>The claims about the outbound channel\<close>

lemma create_new_connection_fst:
  "fst (create_new_connection env s) = can_connect env s"
  by (simp add: create_new_connection_def can_connect_def Let_def split: option.splits)

lemma msg_log_exception [simp]: "msg (log_exception e s) = msg s"
  by (simp add: log_exception_def Let_def remember_def)

lemma msg_send_failed [simp]: "msg (send_failed e s) = msg s"
  by (simp add: send_failed_def close_connection_if_applicable_def Let_def remember_def
           split: option.splits)

lemma msg_socket_send [simp]: "msg (snd (socket_send env m s)) = msg s"
  by (simp add: socket_send_def remember_def split: option.splits)

lemma msg_create_new_connection [simp]: "msg (snd (create_new_connection env s)) = msg s"
  by (simp add: create_new_connection_def Let_def remember_def split: option.splits)

lemma send_connected:
  "\<not> is_shutdown env \<Longrightarrow> connected s \<Longrightarrow> fst (send env data s) = Some (msg s)"
  by (simp add: send_def Let_def split: sum.splits prod.splits option.splits)
     (metis msg_socket_send snd_conv)

lemma send_unconnected:
  assumes "\<not> is_shutdown env" "\<not> connected s"
  shows "fst (send env data s) = (if can_connect env s then Some (msg s) else None)"
proof -
  obtain b s1 where c: "create_new_connection env s = (b, s1)"
    by (cases "create_new_connection env s")
  have b: "b = can_connect env s" using create_new_connection_fst [of env s] c by simp
  have m: "msg s1 = msg s" using msg_create_new_connection [of env s] c by simp
  show ?thesis
  proof (cases b)
    case False
    then show ?thesis using assms c b by (simp add: send_def)
  next
    case True
    have "fst (send env data (s1\<lparr>connected := True\<rparr>)) = Some (msg (s1\<lparr>connected := True\<rparr>))"
      by (rule send_connected) (simp_all add: assms(1))
    moreover have "send env data s = send env data (s1\<lparr>connected := True\<rparr>)"
      using assms c True by (simp add: send_def)
    ultimately show ?thesis using True b m by simp
  qed
qed

lemma log_exception_effect:
  "history (log_exception e s) = history s @ logged e s"
  "most_recent_exception_message (log_exception e s) = str_of ''Exception '' @ str_exn e"
  "connected (log_exception e s) = connected s"
  "socket (log_exception e s) = socket s"
  "sockets_made (log_exception e s) = sockets_made s"
  "unity_tcp_sender (log_exception e s) = unity_tcp_sender s"
  by (auto simp: log_exception_def logged_def Let_def remember_def)

lemma send_write_fails_connected:
  assumes "\<not> is_shutdown env" "send_fails env = Some t"
    and "serialize_message (topic s) data = Inr m"
    and "connected s" "socket s = Some sid"
  shows "send env data s
         = (Some (msg s),
            log_exception (SocketError t)
              (remember (SocketClose sid)
                 (remember (SocketSendFailed sid m) s\<lparr>connected := False\<rparr>)))"
  using assms
  by (simp add: send_def Let_def socket_send_def send_failed_def
                close_connection_if_applicable_def remember_def)

lemma create_new_connection_ok:
  assumes "can_connect env s"
  shows "create_new_connection env s
         = (True,
            remember (SocketConnect (sockets_made s) (unity_ip (unity_tcp_sender s))
                        (unity_port (unity_tcp_sender s)))
              (remember (SocketCreate (sockets_made s))
                 (s\<lparr>socket := Some (sockets_made s), sockets_made := Suc (sockets_made s)\<rparr>)))"
  using assms by (simp add: create_new_connection_def can_connect_def Let_def)

lemma create_new_connection_connect_fails:
  assumes "unity_ip (unity_tcp_sender s) \<noteq> []" "create_fails env = None"
    and "connect_fails env = Some t"
  shows "create_new_connection env s
         = (False,
            log_exception (SocketError t)
              (remember (SocketConnect (sockets_made s) (unity_ip (unity_tcp_sender s))
                           (unity_port (unity_tcp_sender s)))
                 (remember (SocketCreate (sockets_made s))
                    (s\<lparr>socket := Some (sockets_made s),
                       sockets_made := Suc (sockets_made s)\<rparr>))))"
  using assms by (simp add: create_new_connection_def Let_def)

lemma send_connects_first:
  assumes "\<not> is_shutdown env" "\<not> connected s" "can_connect env s"
  shows "send env data s
         = send env data
             ((remember (SocketConnect (sockets_made s) (unity_ip (unity_tcp_sender s))
                          (unity_port (unity_tcp_sender s)))
                (remember (SocketCreate (sockets_made s))
                   (s\<lparr>socket := Some (sockets_made s),
                      sockets_made := Suc (sockets_made s)\<rparr>)))\<lparr>connected := True\<rparr>)"
  using assms create_new_connection_ok [OF assms(3)] by (simp add: send_def)

lemma send_history_prefix:
  "\<exists>evs. history (snd (send env data s)) = history s @ evs"
proof -
  have l: "\<exists>evs. history (log_exception e x) = history x @ evs" for e x
    by (simp add: log_exception_effect)
  have f: "\<exists>evs. history (send_failed e x) = history x @ evs" for e x
    by (auto simp: send_failed_def close_connection_if_applicable_def Let_def
                   log_exception_effect remember_def split: option.splits)
  have ss: "\<exists>evs. history (snd (socket_send env m x)) = history x @ evs" for m x
    by (auto simp: socket_send_def remember_def split: option.splits)
  have c: "\<exists>evs. history (snd (create_new_connection env x)) = history x @ evs" for x
    by (auto simp: create_new_connection_def Let_def log_exception_effect remember_def
             split: option.splits)
  have body: "\<exists>evs. history
       (case serialize_message (topic x) data of
          Inl e \<Rightarrow> send_failed e x
        | Inr serialized_message \<Rightarrow>
            (case socket_send env serialized_message x of
               (Some e, s') \<Rightarrow> send_failed e s'
             | (None, s') \<Rightarrow> s')) = history x @ evs" for x
  proof (cases "serialize_message (topic x) data")
    case (Inl e)
    then show ?thesis using f [of e x] by simp
  next
    case (Inr m)
    obtain r x' where s: "socket_send env m x = (r, x')" by (cases "socket_send env m x")
    obtain e1 where e1: "history x' = history x @ e1" using ss [of m x] s by auto
    show ?thesis
    proof (cases r)
      case None
      then show ?thesis using Inr s e1 by simp
    next
      case (Some e)
      obtain e2 where "history (send_failed e x') = history x' @ e2" using f [of e x'] by auto
      then show ?thesis using Inr s e1 Some by simp
    qed
  qed
  show ?thesis
  proof (cases "is_shutdown env")
    case True
    then show ?thesis by (simp add: send_def)
  next
    case False
    show ?thesis
    proof (cases "connected s")
      case True
      then show ?thesis using False body [of s] by (simp add: send_def Let_def)
    next
      case nc: False
      obtain b s1 where cr: "create_new_connection env s = (b, s1)"
        by (cases "create_new_connection env s")
      obtain e1 where e1: "history s1 = history s @ e1" using c [of s] cr by auto
      show ?thesis
      proof (cases b)
        case False
        then show ?thesis using \<open>\<not> is_shutdown env\<close> nc cr e1 by (simp add: send_def)
      next
        case True
        obtain e2 where "history
           (case serialize_message (topic (s1\<lparr>connected := True\<rparr>)) data of
              Inl e \<Rightarrow> send_failed e (s1\<lparr>connected := True\<rparr>)
            | Inr serialized_message \<Rightarrow>
                (case socket_send env serialized_message (s1\<lparr>connected := True\<rparr>) of
                   (Some e, s') \<Rightarrow> send_failed e s'
                 | (None, s') \<Rightarrow> s')) = history (s1\<lparr>connected := True\<rparr>) @ e2"
          using body [of "s1\<lparr>connected := True\<rparr>"] by auto
        then show ?thesis using \<open>\<not> is_shutdown env\<close> nc cr e1 True
          by (simp add: send_def Let_def)
      qed
    qed
  qed
qed

lemma send_reconnects:
  assumes "\<not> is_shutdown env" "\<not> connected s" "unity_ip (unity_tcp_sender s) \<noteq> []"
    and "create_fails env = None"
  shows "\<exists>evs. history (snd (send env data s))
           = history s @ [SocketCreate (sockets_made s),
                          SocketConnect (sockets_made s) (unity_ip (unity_tcp_sender s))
                            (unity_port (unity_tcp_sender s))] @ evs"
proof (cases "connect_fails env")
  case (Some t)
  then show ?thesis
    using assms create_new_connection_connect_fails [OF assms(3,4) Some]
    by (simp add: send_def log_exception_effect remember_def)
next
  case None
  then have cc: "can_connect env s" using assms by (simp add: can_connect_def)
  let ?s1 = "(remember (SocketConnect (sockets_made s) (unity_ip (unity_tcp_sender s))
                          (unity_port (unity_tcp_sender s)))
                (remember (SocketCreate (sockets_made s))
                   (s\<lparr>socket := Some (sockets_made s),
                      sockets_made := Suc (sockets_made s)\<rparr>)))\<lparr>connected := True\<rparr>"
  obtain evs where "history (snd (send env data ?s1)) = history ?s1 @ evs"
    using send_history_prefix [of env data ?s1] by auto
  then show ?thesis
    using send_connects_first [OF assms(1,2) cc, of data] by (simp add: remember_def)
qed

lemmas channel_eval =
  send_def create_new_connection_def close_connection_if_applicable_def socket_send_def
  send_failed_def log_exception_def remember_def RosSubscriber_init_def
  example_channel_def example_environment_def serialize_message_def utf8_encode_cp_def
  struct_pack_I_def str_of_def Let_def

text \<open>
  Claim C9. The return value of \<open>send\<close>. While rospy is not shut down, \<open>send\<close>
  returns \<open>None\<close> exactly when the channel is not connected and no connection can be
  established, and the message class \<open>self.msg\<close> otherwise, whatever the serialization
  and the write do: the value is the same when the write raises and when it succeeds.
  Every exception raised inside \<open>send\<close> is caught there, so \<open>send\<close> returns a value
  on every input.
\<close>

theorem send_return_value:
  "fst (send env data s) =
     (if is_shutdown env then None
      else if \<not> connected s \<and> \<not> can_connect env s then None
      else Some (msg s))
   \<and> fst (create_new_connection env s) = can_connect env s
   \<and> fst (send (env\<lparr>send_fails := Some t\<rparr>) data s)
       = fst (send (env\<lparr>send_fails := None\<rparr>) data s)"
proof -
  have 1: "fst (send e d s) =
     (if is_shutdown e then None
      else if \<not> connected s \<and> \<not> can_connect e s then None
      else Some (msg s))" for e d
  proof (cases "is_shutdown e")
    case True
    then show ?thesis by (simp add: send_def)
  next
    case False
    then show ?thesis
      using send_connected [of e s d] send_unconnected [of e s d] by (cases "connected s") auto
  qed
  have 2: "can_connect (env\<lparr>send_fails := x\<rparr>) s = can_connect env s" for x
    by (simp add: can_connect_def)
  show ?thesis using 1 [of env data] 1 [of "env\<lparr>send_fails := Some t\<rparr>" data]
      1 [of "env\<lparr>send_fails := None\<rparr>" data] 2 create_new_connection_fst [of env s]
    by simp
qed

theorem send_return_value_witness:
  "fst (send (example_environment None (Some (str_of ''broken pipe''))) (Message [1])
          example_channel) = Some ''PosRot''
   \<and> fst (send (example_environment (Some (str_of ''refused'')) None) (Message [1])
          example_channel) = None"
proof -
  have 1: "msg example_channel = ''PosRot''" "\<not> connected example_channel"
    by (simp_all add: example_channel_def RosSubscriber_init_def)
  have 2: "can_connect (example_environment None x) example_channel"
    "\<not> can_connect (example_environment (Some y) x) example_channel"
    "\<not> is_shutdown (example_environment z x)" for x y z
    by (simp_all add: can_connect_def example_environment_def example_channel_def
                      RosSubscriber_init_def str_of_def)
  show ?thesis
    using send_return_value
      [of "example_environment None (Some (str_of ''broken pipe''))" "Message [1]"
          example_channel, THEN conjunct1]
      send_return_value
      [of "example_environment (Some (str_of ''refused'')) None" "Message [1]"
          example_channel, THEN conjunct1]
    by (simp only: 1 2 if_True if_False simp_thms)
qed

text \<open>
  Claim C7, as amended. Failures in \<open>send\<close>, rospy not shut down. A write that raises,
  on a channel that was connected or that this call has just connected, is attempted
  once, closes the channel's socket, clears \<open>connected\<close> and is logged only if its text
  differs from the text logged last, and \<open>send\<close> returns the message class. A connect
  that raises leaves the channel unconnected with no write attempted and is logged under
  the same rule, and \<open>send\<close> returns \<open>None\<close>. After either, the next call to
  \<open>send\<close>, when the peer address is known, makes a new socket and connects it.
\<close>

theorem send_failure_handling:
  assumes "\<not> is_shutdown env" and "s' = snd (send env data s)"
    and "ip = unity_ip (unity_tcp_sender s)" and "port = unity_port (unity_tcp_sender s)"
    and "n = sockets_made s"
  shows
    "(send_fails env = Some t \<and> serialize_message (topic s) data = Inr m
        \<and> connected s \<and> socket s = Some sid
      \<longrightarrow> fst (send env data s) = Some (msg s)
          \<and> history s' = history s @ [SocketSendFailed sid m, SocketClose sid]
                           @ logged (SocketError t) s
          \<and> \<not> connected s'
          \<and> most_recent_exception_message s' = str_of ''Exception '' @ t)
   \<and> (send_fails env = Some t \<and> serialize_message (topic s) data = Inr m
        \<and> \<not> connected s \<and> can_connect env s
      \<longrightarrow> fst (send env data s) = Some (msg s)
          \<and> history s' = history s @ [SocketCreate n, SocketConnect n ip port,
                                        SocketSendFailed n m, SocketClose n]
                           @ logged (SocketError t) s
          \<and> \<not> connected s'
          \<and> most_recent_exception_message s' = str_of ''Exception '' @ t)
   \<and> (\<not> connected s \<and> ip \<noteq> [] \<and> create_fails env = None \<and> connect_fails env = Some t
      \<longrightarrow> fst (send env data s) = None
          \<and> history s' = history s @ [SocketCreate n, SocketConnect n ip port]
                           @ logged (SocketError t) s
          \<and> \<not> connected s'
          \<and> most_recent_exception_message s' = str_of ''Exception '' @ t)
   \<and> (\<not> connected s' \<and> unity_ip (unity_tcp_sender s') \<noteq> []
        \<and> \<not> is_shutdown env' \<and> create_fails env' = None
      \<longrightarrow> (\<exists>evs. history (snd (send env' data' s'))
                   = history s' @ [SocketCreate (sockets_made s'),
                                   SocketConnect (sockets_made s')
                                     (unity_ip (unity_tcp_sender s'))
                                     (unity_port (unity_tcp_sender s'))] @ evs))"
proof (intro conjI impI)
  assume h: "send_fails env = Some t \<and> serialize_message (topic s) data = Inr m
        \<and> connected s \<and> socket s = Some sid"
  then have w: "send env data s
         = (Some (msg s),
            log_exception (SocketError t)
              (remember (SocketClose sid)
                 (remember (SocketSendFailed sid m) s\<lparr>connected := False\<rparr>)))"
    using send_write_fails_connected [OF assms(1), of t s data m sid] by simp
  show "fst (send env data s) = Some (msg s)" using w by simp
  show "history s' = history s @ [SocketSendFailed sid m, SocketClose sid]
                           @ logged (SocketError t) s"
    using w assms(2) by (simp add: log_exception_effect remember_def logged_def)
  show "\<not> connected s'"
    using w assms(2) by (simp add: log_exception_effect remember_def)
  show "most_recent_exception_message s' = str_of ''Exception '' @ t"
    using w assms(2) by (simp add: log_exception_effect)
next
  assume h: "send_fails env = Some t \<and> serialize_message (topic s) data = Inr m
        \<and> \<not> connected s \<and> can_connect env s"
  let ?s1 = "(remember (SocketConnect (sockets_made s) (unity_ip (unity_tcp_sender s))
                          (unity_port (unity_tcp_sender s)))
                (remember (SocketCreate (sockets_made s))
                   (s\<lparr>socket := Some (sockets_made s),
                      sockets_made := Suc (sockets_made s)\<rparr>)))\<lparr>connected := True\<rparr>"
  have "send env data s = send env data ?s1"
    using send_connects_first [OF assms(1), of s data] h by simp
  also have "\<dots> = (Some (msg ?s1),
            log_exception (SocketError t)
              (remember (SocketClose (sockets_made s))
                 (remember (SocketSendFailed (sockets_made s) m) ?s1\<lparr>connected := False\<rparr>)))"
    using h by (intro send_write_fails_connected [OF assms(1)]) (simp_all add: remember_def)
  finally have w: "send env data s = (Some (msg ?s1),
            log_exception (SocketError t)
              (remember (SocketClose (sockets_made s))
                 (remember (SocketSendFailed (sockets_made s) m) ?s1\<lparr>connected := False\<rparr>)))" .
  show "fst (send env data s) = Some (msg s)" using w by (simp add: remember_def)
  show "history s' = history s @ [SocketCreate n, SocketConnect n ip port,
                                        SocketSendFailed n m, SocketClose n]
                           @ logged (SocketError t) s"
    using w assms(2-5) by (simp add: log_exception_effect remember_def logged_def)
  show "\<not> connected s'"
    using w assms(2) by (simp add: log_exception_effect remember_def)
  show "most_recent_exception_message s' = str_of ''Exception '' @ t"
    using w assms(2) by (simp add: log_exception_effect)
next
  assume h: "\<not> connected s \<and> ip \<noteq> [] \<and> create_fails env = None \<and> connect_fails env = Some t"
  then have c: "create_new_connection env s
         = (False,
            log_exception (SocketError t)
              (remember (SocketConnect (sockets_made s) (unity_ip (unity_tcp_sender s))
                           (unity_port (unity_tcp_sender s)))
                 (remember (SocketCreate (sockets_made s))
                    (s\<lparr>socket := Some (sockets_made s),
                       sockets_made := Suc (sockets_made s)\<rparr>))))"
    using create_new_connection_connect_fails [of s env t] assms(3) by simp
  have w: "send env data s = (None, snd (create_new_connection env s))"
    using assms(1) h c by (simp add: send_def)
  show "fst (send env data s) = None" using w by simp
  show "history s' = history s @ [SocketCreate n, SocketConnect n ip port]
                           @ logged (SocketError t) s"
    using w c assms(2-5) by (simp add: log_exception_effect remember_def logged_def)
  show "\<not> connected s'"
    using w c assms(2) h by (simp add: log_exception_effect remember_def)
  show "most_recent_exception_message s' = str_of ''Exception '' @ t"
    using w c assms(2) by (simp add: log_exception_effect)
next
  assume h: "\<not> connected s' \<and> unity_ip (unity_tcp_sender s') \<noteq> []
        \<and> \<not> is_shutdown env' \<and> create_fails env' = None"
  then show "\<exists>evs. history (snd (send env' data' s'))
                   = history s' @ [SocketCreate (sockets_made s'),
                                   SocketConnect (sockets_made s')
                                     (unity_ip (unity_tcp_sender s'))
                                     (unity_port (unity_tcp_sender s'))] @ evs"
    using send_reconnects [of env' s' data'] by simp
qed

theorem send_failure_handling_witness:
  "history (snd (send (example_environment None (Some (str_of ''broken pipe''))) (Message [1])
                   example_channel))
     = [SocketCreate 0, SocketConnect 0 (str_of ''10.0.0.5'') 5005,
        SocketSendFailed 0 [4, 0, 0, 0, 0x2F, 0x70, 0x6F, 0x73, 1, 0, 0, 0, 1],
        SocketClose 0, LogInfo (str_of ''Exception broken pipe'')]
   \<and> \<not> connected (snd (send (example_environment None (Some (str_of ''broken pipe'')))
                           (Message [1]) example_channel))"
proof -
  let ?env = "example_environment None (Some (str_of ''broken pipe''))"
  let ?m = "[4, 0, 0, 0, 0x2F, 0x70, 0x6F, 0x73, 1, 0, 0, 0, 1] :: bytes"
  have 1: "\<not> is_shutdown ?env" by (simp add: example_environment_def)
  have 2: "send_fails ?env = Some (str_of ''broken pipe'')
           \<and> serialize_message (topic example_channel) (Message [1]) = Inr ?m
           \<and> \<not> connected example_channel \<and> can_connect ?env example_channel"
    by (simp add: example_environment_def example_channel_def RosSubscriber_init_def
                  can_connect_def serialize_message_def utf8_encode_cp_def
                  struct_pack_I_def str_of_def)
  have 3: "logged (SocketError (str_of ''broken pipe'')) example_channel
           = [LogInfo (str_of ''Exception broken pipe'')]"
    by (simp add: logged_def example_channel_def RosSubscriber_init_def str_of_def)
  have 4: "history example_channel = []"
    "unity_ip (unity_tcp_sender example_channel) = str_of ''10.0.0.5''"
    "unity_port (unity_tcp_sender example_channel) = 5005"
    "sockets_made example_channel = 0"
    by (simp_all add: example_channel_def RosSubscriber_init_def)
  from send_failure_handling [OF 1 refl refl refl refl, THEN conjunct2, THEN conjunct1,
      rule_format, OF 2]
  show ?thesis unfolding 3 4 by simp
qed

text \<open>
  The claim as it was stated fails for a connect that raises: the socket the call made
  is not closed.
\<close>

theorem connect_failure_counterexample:
  "fst (send (example_environment (Some (str_of ''refused'')) None) (Message [1])
          example_channel) = None
   \<and> history (snd (send (example_environment (Some (str_of ''refused'')) None) (Message [1])
          example_channel))
     = [SocketCreate 0, SocketConnect 0 (str_of ''10.0.0.5'') 5005,
        LogInfo (str_of ''Exception refused'')]"
  by (simp add: channel_eval)

end
